theory Spec2Isabelle
  imports Complex_Main "HOL-Library.Char_ord" "HOL-Library.List_Lexorder"
begin

section \<open>JavaScript primitives the dashboard relies on\<close>

text \<open>
  Strings are \<^typ>\<open>string\<close>; a character stands for the UTF-16 code unit of the same
  number, so the model covers the code units below 256. A number that holds a count, a
  build number or a millisecond timestamp is an \<^typ>\<open>int\<close>: it stands for the double of
  that value, which exists for every integer of magnitude below \<open>2^53\<close>; where a
  statement depends on a number being in that range it says so. A number that comes out
  of a division is a \<^typ>\<open>rat\<close>, the exact value of a double, and is computed with
  the rounding of IEEE double arithmetic (section \<open>Double arithmetic\<close>).

  A settled promise is a sum: \<open>Inl reason\<close> when it rejected (a \<open>throw\<close> inside an
  \<open>async\<close> function included), \<open>Inr value\<close> when it fulfilled.
\<close>

type_synonym 'a promise = "string + 'a"

text \<open>\<open>Promise.all\<close>: fulfilled with all the values, in the order of the array, unless
  one of the promises rejected.\<close>

fun Promise_all :: "'a promise list \<Rightarrow> 'a list promise" where
  "Promise_all [] = Inr []"
| "Promise_all (p # ps) =
     (case p of
        Inl e \<Rightarrow> Inl e
      | Inr v \<Rightarrow> (case Promise_all ps of Inl e \<Rightarrow> Inl e | Inr vs \<Rightarrow> Inr (v # vs)))"

text \<open>\<open>s.split(c)\<close> for a separator of one character: \<open>"".split("/")\<close> is \<open>[""]\<close>.\<close>

fun split_on :: "char \<Rightarrow> string \<Rightarrow> string list" where
  "split_on c [] = [[]]"
| "split_on c (x # xs) =
     (if x = c then [] # split_on c xs
      else (case split_on c xs of [] \<Rightarrow> [[x]] | p # ps \<Rightarrow> (x # p) # ps))"

text \<open>\<open>xs.indexOf(y)\<close>; \<open>None\<close> is the source's \<open>-1\<close>.\<close>

fun indexOf :: "'a list \<Rightarrow> 'a \<Rightarrow> nat option" where
  "indexOf [] y = None"
| "indexOf (x # xs) y = (if x = y then Some 0 else map_option Suc (indexOf xs y))"

text \<open>\<open>parseInt(s)\<close> without a radix: leading white space is dropped, one sign is read,
  a prefix \<open>0x\<close> or \<open>0X\<close> selects radix 16, and the longest run of digits is the value;
  whatever follows is ignored. \<open>None\<close> is \<open>NaN\<close>. The value is the integer that the
  digits denote. The number that JavaScript returns is the double nearest to it: the
  integer itself when its magnitude is below \<open>2^53\<close>, and a double of magnitude at
  least \<open>2^53\<close> otherwise. \<open>safe_integer\<close> is the range in which the model is exact.\<close>

definition safe_integer :: "int \<Rightarrow> bool" where
  "safe_integer n = (\<bar>n\<bar> < 9007199254740992)"

definition StrWhiteSpaceChar :: "char \<Rightarrow> bool" where
  "StrWhiteSpaceChar c =
     (c \<in> set [CHR 0x09, CHR 0x0A, CHR 0x0B, CHR 0x0C, CHR 0x0D, CHR 0x20, CHR 0xA0])"

definition digit_val :: "char \<Rightarrow> int option" where
  "digit_val c =
     (let n = (of_char c :: int)
      in if 48 \<le> n \<and> n \<le> 57 then Some (n - 48)
         else if 97 \<le> n \<and> n \<le> 102 then Some (n - 87)
         else if 65 \<le> n \<and> n \<le> 70 then Some (n - 55)
         else None)"

definition is_radix_digit :: "int \<Rightarrow> char \<Rightarrow> bool" where
  "is_radix_digit R c = (case digit_val c of None \<Rightarrow> False | Some d \<Rightarrow> d < R)"

definition radix_value :: "int \<Rightarrow> string \<Rightarrow> int" where
  "radix_value R Z =
     foldl (\<lambda>acc c. acc * R + (case digit_val c of None \<Rightarrow> 0 | Some d \<Rightarrow> d)) 0 Z"

definition parseInt :: "string \<Rightarrow> int option" where
  "parseInt inputString =
     (let S = dropWhile StrWhiteSpaceChar inputString;
          sign = (if S \<noteq> [] \<and> hd S = CHR ''-'' then - 1 else (1::int));
          S1 = (if S \<noteq> [] \<and> (hd S = CHR ''+'' \<or> hd S = CHR ''-'') then tl S else S);
          hex = (take 2 S1 = ''0x'' \<or> take 2 S1 = ''0X'');
          R = (if hex then 16 else 10);
          S2 = (if hex then drop 2 S1 else S1);
          Z = takeWhile (is_radix_digit R) S2
      in if Z = [] then None else Some (sign * radix_value R Z))"

text \<open>\<open>encodeURIComponent\<close>: the unreserved characters stay, every other code unit is
  written as the percent-escaped bytes of its UTF-8 encoding.\<close>

definition uriUnreserved :: "char \<Rightarrow> bool" where
  "uriUnreserved c =
     (let n = (of_char c :: int)
      in (48 \<le> n \<and> n \<le> 57) \<or> (65 \<le> n \<and> n \<le> 90) \<or> (97 \<le> n \<and> n \<le> 122)
         \<or> c \<in> set ''-_.!~*'' \<or> c = CHR 0x27 \<or> c = CHR ''('' \<or> c = CHR '')'')"

definition digit_char :: "int \<Rightarrow> char" where
  "digit_char d = char_of (48 + d)"

definition hex_digit :: "int \<Rightarrow> char" where
  "hex_digit d = (if d < 10 then digit_char d else char_of (55 + d))"

definition percent_byte :: "int \<Rightarrow> string" where
  "percent_byte b = [CHR ''%'', hex_digit (b div 16), hex_digit (b mod 16)]"

definition encodeURIComponent :: "string \<Rightarrow> string" where
  "encodeURIComponent s =
     concat (map (\<lambda>c. let n = (of_char c :: int)
                      in if uriUnreserved c then [c]
                         else if n < 128 then percent_byte n
                         else percent_byte (192 + n div 64) @ percent_byte (128 + n mod 64)) s)"

text \<open>The decimal text of an integer, as a template literal prints a number that is a
  safe integer (\<open>string_of_nat\<close> is for the non-negative ones). A double beyond that
  range is printed with its shortest digits, and in exponent form from \<open>1e21\<close>.\<close>

function string_of_nat :: "int \<Rightarrow> string" where
  "string_of_nat n =
     (if 10 \<le> n then string_of_nat (n div 10) @ [digit_char (n mod 10)]
      else [digit_char n])"
  by pat_completeness auto
termination
  by (relation "measure nat") auto

declare string_of_nat.simps [simp del]

definition string_of_int :: "int \<Rightarrow> string" where
  "string_of_int i = (if i < 0 then CHR ''-'' # string_of_nat (- i) else string_of_nat i)"

text \<open>The own enumerable string keys of an object literal \<open>{}\<close> that is filled by
  assignment are listed by \<open>Object.values\<close> and \<open>Object.entries\<close> with the array indices
  first, in ascending numeric order, and the other keys after them in the order of their
  creation. An association list in creation order stands for the object.\<close>

definition is_array_index :: "string \<Rightarrow> bool" where
  "is_array_index k =
     (k \<noteq> [] \<and> list_all (is_radix_digit 10) k \<and> (k = ''0'' \<or> hd k \<noteq> CHR ''0'')
      \<and> radix_value 10 k < 4294967295)"

definition own_entries :: "(string \<times> 'v) list \<Rightarrow> (string \<times> 'v) list" where
  "own_entries obj =
     sort_key (\<lambda>kv. radix_value 10 (fst kv)) (filter (\<lambda>kv. is_array_index (fst kv)) obj)
     @ filter (\<lambda>kv. \<not> is_array_index (fst kv)) obj"

text \<open>A fresh object literal inherits the members of \<open>Object.prototype\<close>: reading one of
  these keys from it yields the inherited member, which is truthy, although the object
  has no own property of that name. \<open>Object.prototype\<close> is shared and can be written
  to: reading the key \<open>__proto__\<close> yields \<open>Object.prototype\<close> itself, and an assignment
  to a field of what was read adds a property that every object inherits from then on.
  The state of the model, a \<open>prototype\<close>, lists the names of the truthy properties
  that have been added in this way; \<open>pristine\<close> is the state in which the page
  starts.\<close>

definition Object_prototype_members :: "string list" where
  "Object_prototype_members =
     [''constructor'', ''__defineGetter__'', ''__defineSetter__'', ''hasOwnProperty'',
      ''__lookupGetter__'', ''__lookupSetter__'', ''isPrototypeOf'', ''propertyIsEnumerable'',
      ''toString'', ''valueOf'', ''__proto__'', ''toLocaleString'']"

type_synonym prototype = "string list"

definition pristine :: prototype where
  "pristine = []"

definition inherited :: "prototype \<Rightarrow> string \<Rightarrow> bool" where
  "inherited proto k = (k \<in> set Object_prototype_members \<or> k \<in> set proto)"

section \<open>Double arithmetic\<close>

text \<open>
  \<open>double x\<close> is the double nearest to the rational \<open>x\<close>, a tie going to the even
  significand: with \<open>2^e \<le> |x| < 2^(e+1)\<close> the doubles around \<open>x\<close> are the multiples
  of \<open>2^(e-52)\<close> (of \<open>2^(-1074)\<close> in the subnormal range). Overflow to infinity, from
  \<open>2^1024\<close>, is not modelled. \<open>a / b\<close> and \<open>a * b\<close> on doubles are the exact
  results rounded once.
\<close>

function bit_length :: "int \<Rightarrow> int" where
  "bit_length n = (if n \<le> 0 then 0 else 1 + bit_length (n div 2))"
  by pat_completeness auto
termination
  by (relation "measure nat") auto

declare bit_length.simps [simp del]

function pow2 :: "int \<Rightarrow> rat" where
  "pow2 k = (if k = 0 then 1 else if 0 < k then 2 * pow2 (k - 1) else pow2 (k + 1) / 2)"
  by pat_completeness auto
termination
  by (relation "measure (\<lambda>k. nat \<bar>k\<bar>)") auto

declare pow2.simps [simp del]

definition floor_log2 :: "rat \<Rightarrow> int" where
  "floor_log2 a =
     (case quotient_of a of
        (p, q) \<Rightarrow>
          (let d = bit_length p - bit_length q
           in if pow2 d \<le> a then d else d - 1))"

definition round_half_even :: "rat \<Rightarrow> int" where
  "round_half_even x =
     (let f = \<lfloor>x\<rfloor>; r = x - of_int f
      in if r < 1 / 2 then f else if 1 / 2 < r then f + 1 else if even f then f else f + 1)"

definition double :: "rat \<Rightarrow> rat" where
  "double x =
     (if x = 0 then 0
      else let ulp = pow2 (max (floor_log2 \<bar>x\<bar>) (- 1022) - 52)
           in of_int (round_half_even (x / ulp)) * ulp)"

definition js_div :: "rat \<Rightarrow> rat \<Rightarrow> rat" where
  "js_div a b = double (a / b)"

definition js_mul :: "rat \<Rightarrow> rat \<Rightarrow> rat" where
  "js_mul a b = double (a * b)"

section \<open>Data model (\<open>types/index.ts\<close>)\<close>

text \<open>Field names carry a prefix for their interface: \<open>bc\<close> \<open>JenkinsBuildConfig\<close>,
  \<open>as\<close> \<open>AllureSummary\<close>, \<open>ar\<close> \<open>AllureResult\<close>, \<open>rd\<close> \<open>AllureReportData\<close>,
  \<open>ht\<close> \<open>HistoricalTrend\<close>, \<open>ft\<close> \<open>FlakyTest\<close>, \<open>em\<close> \<open>EnvironmentMatrix\<close>.
  An optional field is an \<open>option\<close>; a \<open>Date\<close> is its millisecond time value.\<close>

record JenkinsBuildConfig =
  bc_name :: string
  bc_buildUrl :: string
  bc_jobName :: string
  bc_buildNumber :: int
  bc_description :: "string option"
  bc_environment :: "string option"
  bc_tags :: "string list option"

record AllureSummary =
  as_total :: int
  as_passed :: int
  as_failed :: int
  as_broken :: int
  as_skipped :: int
  as_duration :: int
  as_startTime :: int
  as_endTime :: int

datatype test_status = passed | failed | broken | skipped

text \<open>Of an \<open>AllureResult\<close> the scalar fields are kept; the nested step, attachment,
  parameter, label and link arrays are read nowhere in the code modelled here.\<close>

record AllureResult =
  ar_uuid :: string
  ar_name :: string
  ar_fullName :: string
  ar_status :: test_status
  ar_start :: int
  ar_stop :: int
  ar_duration :: int

datatype report_status = success | error | loading

record AllureReportData =
  rd_buildConfig :: JenkinsBuildConfig
  rd_summary :: "AllureSummary option"
  rd_results :: "AllureResult list"
  rd_reportUrl :: string
  rd_lastUpdated :: int
  rd_status :: report_status
  rd_errorMessage :: "string option"

record HistoricalTrend =
  ht_date :: string
  ht_totalTests :: int
  ht_passedTests :: int
  ht_failedTests :: int
  ht_successRate :: rat

record FlakyTest =
  ft_testName :: string
  ft_jobName :: string
  ft_failureRate :: rat
  ft_totalRuns :: nat
  ft_lastFailure :: int

record EnvironmentMatrix =
  em_environment :: string
  em_totalTests :: int
  em_passedTests :: int
  em_failedTests :: int
  em_successRate :: rat

section \<open>The Jenkins API service (\<open>services/jenkinsApi.ts\<close>)\<close>

text \<open>
  The service reads three things from its surroundings, which the model takes as
  arguments:
  \<^item> \<open>URL\<close>: the platform's \<open>URL\<close> constructor followed by \<open>.pathname\<close>; \<open>None\<close> when
    the constructor throws;
  \<^item> a \<open>network\<close>: what \<open>axiosInstance.get\<close> settles to for a request path, once for the
    summary and once for the test results (\<open>response.data\<close> may be \<open>null\<close>);
  \<^item> the clock read by \<open>new Date()\<close>.
\<close>

record network =
  get_summary :: "string \<Rightarrow> AllureSummary option promise"
  get_results :: "string \<Rightarrow> AllureResult list option promise"

record JenkinsApiService =
  baseURL :: string
  jsessionId :: string

record BuildInfo =
  bi_jobName :: string
  bi_buildNumber :: int

definition pathParts :: "string \<Rightarrow> string list" where
  "pathParts pathname = filter (\<lambda>s. s \<noteq> []) (split_on CHR ''/'' pathname)"

definition parseBuildUrl :: "(string \<Rightarrow> string option) \<Rightarrow> string \<Rightarrow> BuildInfo option" where
  "parseBuildUrl URL buildUrl =
     (case URL buildUrl of
        None \<Rightarrow> None
      | Some pathname \<Rightarrow>
          (let parts = pathParts pathname
           in case indexOf parts ''job'' of
                None \<Rightarrow> None
              | Some jobIndex \<Rightarrow>
                  if jobIndex + 2 < length parts
                  then (case parseInt (parts ! (jobIndex + 2)) of
                          None \<Rightarrow> None
                        | Some n \<Rightarrow> Some \<lparr>bi_jobName = parts ! (jobIndex + 1), bi_buildNumber = n\<rparr>)
                  else None))"

text \<open>A stand-in for the \<open>URL\<close> constructor on the strings used in the closed examples
  below: an \<open>http\<close> or \<open>https\<close> scheme, a non-empty host, and the path up to the query
  or fragment. On the example strings it returns what \<open>new URL(s).pathname\<close> returns;
  a string without such a scheme is rejected, as the constructor rejects a relative
  reference.\<close>

definition URL_pathname_http :: "string \<Rightarrow> string option" where
  "URL_pathname_http s =
     (let rest = (if take 7 s = ''http://'' then Some (drop 7 s)
                  else if take 8 s = ''https://'' then Some (drop 8 s) else None)
      in case rest of
           None \<Rightarrow> None
         | Some r \<Rightarrow>
             (let host = takeWhile (\<lambda>c. c \<notin> set ''/?#'') r;
                  path = takeWhile (\<lambda>c. c \<notin> set ''?#'') (dropWhile (\<lambda>c. c \<notin> set ''/?#'') r)
              in if host = [] then None else Some (if path = [] then ''/'' else path)))"


text \<open>The request paths are the template literals of \<open>getAllureSummary\<close> and
  \<open>getAllureResults\<close>.\<close>

definition summary_path :: "BuildInfo \<Rightarrow> string" where
  "summary_path buildInfo =
     ''/job/'' @ encodeURIComponent (bi_jobName buildInfo) @ ''/''
     @ string_of_int (bi_buildNumber buildInfo)
     @ ''/allure-results/api/rs/allure2/export/summary.json''"

definition results_path :: "BuildInfo \<Rightarrow> string" where
  "results_path buildInfo =
     ''/job/'' @ encodeURIComponent (bi_jobName buildInfo) @ ''/''
     @ string_of_int (bi_buildNumber buildInfo)
     @ ''/allure-results/api/rs/allure2/export/testresult.json''"

text \<open>In both readers the \<open>try\<close> block is \<open>attempt\<close>: it throws on an unresolved URL
  and when the request rejects. The \<open>catch\<close> block logs and returns the placeholder, so
  the promise of the reader itself always fulfils.\<close>

definition getAllureSummary ::
  "(string \<Rightarrow> string option) \<Rightarrow> network \<Rightarrow> string \<Rightarrow> AllureSummary option promise" where
  "getAllureSummary URL net buildUrl =
     (let attempt =
            (case parseBuildUrl URL buildUrl of
               None \<Rightarrow> Inl ''Invalid build URL format''
             | Some buildInfo \<Rightarrow>
                 (case get_summary net (summary_path buildInfo) of
                    Inl e \<Rightarrow> Inl e
                  | Inr data \<Rightarrow> Inr data))
      in case attempt of Inl e \<Rightarrow> Inr None | Inr data \<Rightarrow> Inr data)"

definition getAllureResults ::
  "(string \<Rightarrow> string option) \<Rightarrow> network \<Rightarrow> string \<Rightarrow> AllureResult list promise" where
  "getAllureResults URL net buildUrl =
     (let attempt =
            (case parseBuildUrl URL buildUrl of
               None \<Rightarrow> Inl ''Invalid build URL format''
             | Some buildInfo \<Rightarrow>
                 (case get_results net (results_path buildInfo) of
                    Inl e \<Rightarrow> Inl e
                  | Inr data \<Rightarrow> Inr (case data of None \<Rightarrow> [] | Some rs \<Rightarrow> rs)))
      in case attempt of Inl e \<Rightarrow> Inr [] | Inr rs \<Rightarrow> Inr rs)"

definition getAllureReportUrl ::
  "JenkinsApiService \<Rightarrow> (string \<Rightarrow> string option) \<Rightarrow> string \<Rightarrow> string" where
  "getAllureReportUrl svc URL buildUrl =
     (case parseBuildUrl URL buildUrl of
        None \<Rightarrow> buildUrl
      | Some buildInfo \<Rightarrow>
          baseURL svc @ ''/job/'' @ encodeURIComponent (bi_jobName buildInfo) @ ''/''
          @ string_of_int (bi_buildNumber buildInfo) @ ''/allure/'')"

text \<open>\<open>Promise.all\<close> on the two readers.\<close>

definition Promise_all2 :: "'a promise \<Rightarrow> 'b promise \<Rightarrow> ('a \<times> 'b) promise" where
  "Promise_all2 p q =
     (case p of
        Inl e \<Rightarrow> Inl e
      | Inr a \<Rightarrow> (case q of Inl e \<Rightarrow> Inl e | Inr b \<Rightarrow> Inr (a, b)))"

text \<open>\<open>getAllureReportData\<close>: \<open>attempt\<close> is the \<open>try\<close> block, which ends in the record with
  status \<open>success\<close>; the \<open>catch\<close> block builds the record with status \<open>error\<close> from the
  message of whatever was thrown. \<open>now\<close> is the clock at the moment the record is built.\<close>

definition getAllureReportData ::
  "JenkinsApiService \<Rightarrow> (string \<Rightarrow> string option) \<Rightarrow> network \<Rightarrow> int \<Rightarrow> JenkinsBuildConfig
     \<Rightarrow> AllureReportData promise" where
  "getAllureReportData svc URL net now buildConfig =
     (let attempt =
            (case Promise_all2 (getAllureSummary URL net (bc_buildUrl buildConfig))
                               (getAllureResults URL net (bc_buildUrl buildConfig)) of
               Inl e \<Rightarrow> Inl e
             | Inr (summary, results) \<Rightarrow>
                 Inr \<lparr>rd_buildConfig = buildConfig,
                      rd_summary = summary,
                      rd_results = results,
                      rd_reportUrl = getAllureReportUrl svc URL (bc_buildUrl buildConfig),
                      rd_lastUpdated = now,
                      rd_status = success,
                      rd_errorMessage = None\<rparr>)
      in case attempt of
           Inr report \<Rightarrow> Inr report
         | Inl e \<Rightarrow>
             Inr \<lparr>rd_buildConfig = buildConfig,
                  rd_summary = None,
                  rd_results = [],
                  rd_reportUrl = getAllureReportUrl svc URL (bc_buildUrl buildConfig),
                  rd_lastUpdated = now,
                  rd_status = error,
                  rd_errorMessage = Some e\<rparr>)"

text \<open>\<open>getAllureReportsForBuilds\<close>: one call per configuration, all awaited together.
  The call for position \<open>i\<close> sees the network as \<open>nets i\<close> and finishes at time
  \<open>clock i\<close>, so that two builds, even with the same URL, may fare differently.\<close>

definition getAllureReportsForBuilds ::
  "JenkinsApiService \<Rightarrow> (string \<Rightarrow> string option) \<Rightarrow> (nat \<Rightarrow> network) \<Rightarrow> (nat \<Rightarrow> int)
     \<Rightarrow> JenkinsBuildConfig list \<Rightarrow> AllureReportData list promise" where
  "getAllureReportsForBuilds svc URL nets clock buildConfigs =
     Promise_all (map (\<lambda>(i, config). getAllureReportData svc URL (nets i) (clock i) config)
                      (enumerate 0 buildConfigs))"

section \<open>The metrics derivers (\<open>components/Analysis.tsx\<close>)\<close>

text \<open>\<open>acc[k].push(v)\<close> after \<open>if (!acc[k]) acc[k] = []\<close>, for a key that is not inherited.\<close>

fun push_group :: "string \<Rightarrow> 'a \<Rightarrow> (string \<times> 'a list) list \<Rightarrow> (string \<times> 'a list) list" where
  "push_group k v [] = [(k, [v])]"
| "push_group k v ((k', vs) # obj) =
     (if k' = k then (k', vs @ [v]) # obj else (k', vs) # push_group k v obj)"

text \<open>The inner \<open>reduce\<close> of the trend and of the environment matrix: the sums of
  \<open>total\<close>, \<open>passed\<close> and \<open>failed\<close> over the reports that have a summary (the
  accumulator fields are \<open>tot\<close>, \<open>pas\<close> and \<open>fai\<close> here).\<close>

definition aggregatedResults :: "AllureReportData list \<Rightarrow> int \<times> int \<times> int" where
  "aggregatedResults reports =
     foldl (\<lambda>(tot, pas, fai) report.
              case rd_summary report of
                None \<Rightarrow> (tot, pas, fai)
              | Some s \<Rightarrow> (tot + as_total s, pas + as_passed s, fai + as_failed s))
           (0, 0, 0) reports"

text \<open>\<open>Math.round\<close> takes the integer nearest to a double, a tie going up; this step is
  exact. \<open>successRate\<close> is the local of that name, and \<open>rounded_successRate\<close> is
  \<open>Math.round(successRate * 100) / 100\<close>.\<close>

definition Math_round :: "rat \<Rightarrow> int" where
  "Math_round x = \<lfloor>x + 1 / 2\<rfloor>"

definition successRate :: "int \<Rightarrow> int \<Rightarrow> rat" where
  "successRate tot pas = (if tot > 0 then js_mul (js_div (of_int pas) (of_int tot)) 100 else 0)"

definition rounded_successRate :: "int \<Rightarrow> int \<Rightarrow> rat" where
  "rounded_successRate tot pas =
     js_div (of_int (Math_round (js_mul (successRate tot pas) 100))) 100"

text \<open>\<open>generateHistoricalTrendData\<close>; \<open>reportsByDate_step\<close> is the function given to
  the outer \<open>reduce\<close>. \<open>fmt\<close> is \<open>format(\<cdot>, 'yyyy-MM-dd')\<close> of date-fns in
  the time zone of the browser. Its results are date strings: none of them is an
  inherited member or an array index, and \<open>localeCompare\<close> orders them as the
  characters do.\<close>

definition reportsByDate_step ::
  "(int \<Rightarrow> string) \<Rightarrow> (string \<times> AllureReportData list) list \<Rightarrow> AllureReportData
     \<Rightarrow> (string \<times> AllureReportData list) list" where
  "reportsByDate_step fmt acc report =
     (if rd_summary report \<noteq> None
      then push_group (fmt (rd_lastUpdated report)) report acc
      else acc)"

definition reportsByDate ::
  "(int \<Rightarrow> string) \<Rightarrow> AllureReportData list \<Rightarrow> (string \<times> AllureReportData list) list" where
  "reportsByDate fmt allureReports = foldl (reportsByDate_step fmt) [] allureReports"

definition generateHistoricalTrendData ::
  "(int \<Rightarrow> string) \<Rightarrow> AllureReportData list \<Rightarrow> HistoricalTrend list" where
  "generateHistoricalTrendData fmt allureReports =
     (if allureReports = [] then []
      else map (\<lambda>(date, reports).
                  case aggregatedResults reports of
                    (tot, pas, fai) \<Rightarrow>
                      \<lparr>ht_date = date,
                       ht_totalTests = tot,
                       ht_passedTests = pas,
                       ht_failedTests = fai,
                       ht_successRate = rounded_successRate tot pas\<rparr>)
               (sort_key fst (own_entries (reportsByDate fmt allureReports))))"

text \<open>\<open>generateFlakyTestsData\<close>. A \<open>TestRun\<close> is an element of \<open>testResults\<close>, a
  \<open>TestStats\<close> a value of the \<open>testStats\<close> object.\<close>

record TestRun =
  tr_testName :: string
  tr_jobName :: string
  tr_status :: test_status
  tr_timestamp :: int

record TestStats =
  ts_testName :: string
  ts_jobName :: string
  ts_totalRuns :: nat
  ts_failures :: nat
  ts_lastFailure :: "int option"

definition testResults :: "AllureReportData list \<Rightarrow> TestRun list" where
  "testResults allureReports =
     concat (map (\<lambda>report.
                    map (\<lambda>result. \<lparr>tr_testName = ar_name result,
                                    tr_jobName = bc_jobName (rd_buildConfig report),
                                    tr_status = ar_status result,
                                    tr_timestamp = rd_lastUpdated report\<rparr>)
                        (rd_results report))
                 allureReports)"

text \<open>An assignment to a field of \<open>acc[k]\<close>.\<close>

definition update_entry :: "string \<Rightarrow> ('v \<Rightarrow> 'v) \<Rightarrow> (string \<times> 'v) list \<Rightarrow> (string \<times> 'v) list" where
  "update_entry k f obj = map (\<lambda>(k', v). if k' = k then (k', f v) else (k', v)) obj"

text \<open>One step of the \<open>reduce\<close> that fills \<open>testStats\<close>. \<open>new_TestStats\<close> is the object
  literal stored when \<open>acc[test.testName]\<close> is falsy, and \<open>count_run\<close> is what the
  statements after it do to \<open>acc[test.testName]\<close> when that is an entry of \<open>acc\<close>.
  When \<open>acc\<close> has no entry of that name and the name is inherited,
  \<open>acc[test.testName]\<close> is the inherited member, which is truthy: no entry is created
  and the statements write to the inherited member. For the name \<open>__proto__\<close> that
  member is \<open>Object.prototype\<close>: a failed or broken run stores the timestamp of the
  run, a \<open>Date\<close>, in its field \<open>lastFailure\<close> (the counters it gets are \<open>NaN\<close>,
  which is falsy). \<open>write_inherited\<close> is that effect; writing to any other inherited
  member changes nothing that an object inherits.\<close>

definition new_TestStats :: "TestRun \<Rightarrow> TestStats" where
  "new_TestStats test =
     \<lparr>ts_testName = tr_testName test,
      ts_jobName = tr_jobName test,
      ts_totalRuns = 0,
      ts_failures = 0,
      ts_lastFailure = None\<rparr>"

definition count_run :: "TestRun \<Rightarrow> TestStats \<Rightarrow> TestStats" where
  "count_run test s =
     (let s1 = s\<lparr>ts_totalRuns := ts_totalRuns s + 1\<rparr>
      in if tr_status test = failed \<or> tr_status test = broken
         then s1\<lparr>ts_failures := ts_failures s1 + 1,
                 ts_lastFailure :=
                   (case ts_lastFailure s1 of
                      None \<Rightarrow> Some (tr_timestamp test)
                    | Some l \<Rightarrow> if tr_timestamp test > l then Some (tr_timestamp test)
                                else Some l)\<rparr>
         else s1)"

definition write_inherited :: "prototype \<Rightarrow> TestRun \<Rightarrow> prototype" where
  "write_inherited proto test =
     (if tr_testName test = ''__proto__'' \<and> (tr_status test = failed \<or> tr_status test = broken)
      then List.insert ''lastFailure'' proto
      else proto)"

definition testStats_step ::
  "prototype \<times> (string \<times> TestStats) list \<Rightarrow> TestRun \<Rightarrow> prototype \<times> (string \<times> TestStats) list" where
  "testStats_step state test =
     (case state of
        (proto, acc) \<Rightarrow>
          if map_of acc (tr_testName test) \<noteq> None
          then (proto, update_entry (tr_testName test) (count_run test) acc)
          else if inherited proto (tr_testName test)
          then (write_inherited proto test, acc)
          else (proto, update_entry (tr_testName test) (count_run test)
                         (acc @ [(tr_testName test, new_TestStats test)])))"

text \<open>\<open>testStats\<close> is the object that the \<open>reduce\<close> returns, and
  \<open>generateFlakyTestsData_prototype\<close> is the state in which a call of
  \<open>generateFlakyTestsData\<close> leaves \<open>Object.prototype\<close>.\<close>

definition testStats_reduce ::
  "prototype \<Rightarrow> AllureReportData list \<Rightarrow> prototype \<times> (string \<times> TestStats) list" where
  "testStats_reduce proto allureReports =
     foldl testStats_step (proto, []) (testResults allureReports)"

definition testStats :: "prototype \<Rightarrow> AllureReportData list \<Rightarrow> (string \<times> TestStats) list" where
  "testStats proto allureReports = snd (testStats_reduce proto allureReports)"

definition generateFlakyTestsData_prototype :: "prototype \<Rightarrow> AllureReportData list \<Rightarrow> prototype" where
  "generateFlakyTestsData_prototype proto allureReports =
     (if allureReports = [] then proto else fst (testStats_reduce proto allureReports))"

text \<open>\<open>flakyCandidates\<close> is the array that \<open>generateFlakyTestsData\<close> hands to \<open>sort\<close>:
  the values of \<open>testStats\<close>, filtered and mapped. \<open>now\<close> is the clock that
  \<open>test.lastFailure || new Date()\<close> would read. The comparison function of \<open>sort\<close>
  looks at the failure rate only, and the sort is stable.\<close>

definition flakyCandidates :: "prototype \<Rightarrow> int \<Rightarrow> AllureReportData list \<Rightarrow> FlakyTest list" where
  "flakyCandidates proto now allureReports =
     map (\<lambda>test. \<lparr>ft_testName = ts_testName test,
                   ft_jobName = ts_jobName test,
                   ft_failureRate =
                     js_mul (js_div (of_nat (ts_failures test)) (of_nat (ts_totalRuns test))) 100,
                   ft_totalRuns = ts_totalRuns test,
                   ft_lastFailure = (case ts_lastFailure test of None \<Rightarrow> now | Some d \<Rightarrow> d)\<rparr>)
         (filter (\<lambda>test. ts_failures test > 0)
                 (map snd (own_entries (testStats proto allureReports))))"

definition generateFlakyTestsData ::
  "prototype \<Rightarrow> int \<Rightarrow> AllureReportData list \<Rightarrow> FlakyTest list" where
  "generateFlakyTestsData proto now allureReports =
     (if allureReports = [] then []
      else take 10 (sort_key (\<lambda>t. - ft_failureRate t) (flakyCandidates proto now allureReports)))"

text \<open>\<open>generateEnvironmentMatrixData\<close>; \<open>reportsByEnvironment_step\<close> is the function
  given to the outer \<open>reduce\<close>, an \<open>Inl\<close> accumulator meaning that it has thrown. An
  environment named like an inherited member makes \<open>acc[env]\<close> that member, which has
  no \<open>push\<close>: the call throws a \<open>TypeError\<close>. The deriver leaves \<open>Object.prototype\<close>
  as it is.\<close>

definition environment_key :: "AllureReportData \<Rightarrow> string" where
  "environment_key report =
     (case bc_environment (rd_buildConfig report) of
        None \<Rightarrow> ''default''
      | Some env \<Rightarrow> if env = [] then ''default'' else env)"

definition reportsByEnvironment_step ::
  "prototype \<Rightarrow> string + (string \<times> AllureReportData list) list \<Rightarrow> AllureReportData
     \<Rightarrow> string + (string \<times> AllureReportData list) list" where
  "reportsByEnvironment_step proto acc report =
     (case acc of
        Inl e \<Rightarrow> Inl e
      | Inr obj \<Rightarrow>
          if inherited proto (environment_key report)
          then Inl ''TypeError: acc[env].push is not a function''
          else Inr (push_group (environment_key report) report obj))"

definition reportsByEnvironment ::
  "prototype \<Rightarrow> AllureReportData list \<Rightarrow> string + (string \<times> AllureReportData list) list" where
  "reportsByEnvironment proto allureReports =
     foldl (reportsByEnvironment_step proto) (Inr []) allureReports"

definition generateEnvironmentMatrixData ::
  "prototype \<Rightarrow> AllureReportData list \<Rightarrow> string + EnvironmentMatrix list" where
  "generateEnvironmentMatrixData proto allureReports =
     (if allureReports = [] then Inr []
      else case reportsByEnvironment proto allureReports of
             Inl e \<Rightarrow> Inl e
           | Inr obj \<Rightarrow>
               Inr (map (\<lambda>(environment, reports).
                           case aggregatedResults reports of
                             (tot, pas, fai) \<Rightarrow>
                               \<lparr>em_environment = environment,
                                em_totalTests = tot,
                                em_passedTests = pas,
                                em_failedTests = fai,
                                em_successRate = rounded_successRate tot pas\<rparr>)
                        (own_entries obj)))"

text \<open>The three derived views, as the body of the component computes them on every
  render, one after the other, from the reports, the formatter, the clock of that
  render and the state of \<open>Object.prototype\<close>; the second component is the state in
  which the render leaves \<open>Object.prototype\<close>.\<close>

definition Analysis_derived ::
  "prototype \<Rightarrow> (int \<Rightarrow> string) \<Rightarrow> int \<Rightarrow> AllureReportData list
     \<Rightarrow> (HistoricalTrend list \<times> FlakyTest list \<times> (string + EnvironmentMatrix list)) \<times> prototype" where
  "Analysis_derived proto fmt now allureReports =
     (let proto' = generateFlakyTestsData_prototype proto allureReports
      in ((generateHistoricalTrendData fmt allureReports,
           generateFlakyTestsData proto now allureReports,
           generateEnvironmentMatrixData proto' allureReports),
          proto'))"

text \<open>A formatter for the closed examples: \<open>yyyy-MM-dd\<close> of the proleptic Gregorian
  calendar in UTC, the year padded to four digits as date-fns pads it.\<close>

definition addLeadingZeros :: "int \<Rightarrow> nat \<Rightarrow> string" where
  "addLeadingZeros n targetLength =
     (let s = string_of_nat n in replicate (targetLength - length s) CHR ''0'' @ s)"

definition format_yyyy_MM_dd :: "int \<Rightarrow> string" where
  "format_yyyy_MM_dd t =
     (let z = t div 86400000 + 719468;
          era = z div 146097;
          doe = z mod 146097;
          yoe = (doe - doe div 1460 + doe div 36524 - doe div 146096) div 365;
          doy = doe - (365 * yoe + yoe div 4 - yoe div 100);
          mp = (5 * doy + 2) div 153;
          d = doy - (153 * mp + 2) div 5 + 1;
          m = (if mp < 10 then mp + 3 else mp - 9);
          y = yoe + era * 400 + (if m \<le> 2 then 1 else 0);
          year = (if y > 0 then y else 1 - y)
      in addLeadingZeros year 4 @ ''-'' @ addLeadingZeros m 2 @ ''-'' @ addLeadingZeros d 2)"


section \<open>The wording of the specification, for comparison\<close>

text \<open>The URL resolver as the specification words it: the string is a well-formed
  URL, some segment of its path is \<open>job\<close>, at least two segments follow it, and the
  second of them is a non-negative integer.\<close>

definition spec_nonneg_integer :: "string \<Rightarrow> bool" where
  "spec_nonneg_integer s = (s \<noteq> [] \<and> list_all (is_radix_digit 10) s)"

definition spec_resolvable :: "(string \<Rightarrow> string option) \<Rightarrow> string \<Rightarrow> bool" where
  "spec_resolvable URL buildUrl =
     (case URL buildUrl of
        None \<Rightarrow> False
      | Some pathname \<Rightarrow>
          (let parts = pathParts pathname
           in list_ex (\<lambda>i. parts ! i = ''job'' \<and> i + 2 < length parts
                            \<and> spec_nonneg_integer (parts ! (i + 2)))
                      [0..<length parts]))"

text \<open>What a record contributes to the counts of its day: its summary, or zero when it
  has none.\<close>

definition total_of :: "AllureReportData \<Rightarrow> int" where
  "total_of r = (case rd_summary r of None \<Rightarrow> 0 | Some s \<Rightarrow> as_total s)"

definition passed_of :: "AllureReportData \<Rightarrow> int" where
  "passed_of r = (case rd_summary r of None \<Rightarrow> 0 | Some s \<Rightarrow> as_passed s)"

definition failed_of :: "AllureReportData \<Rightarrow> int" where
  "failed_of r = (case rd_summary r of None \<Rightarrow> 0 | Some s \<Rightarrow> as_failed s)"

text \<open>The success rate of a day in the words of the specification: passed divided by
  total times 100, rounded to 2 decimal places (a tie going up, as \<open>Math.round\<close> has
  it), and 0 when the total is 0. As a number it is the double nearest to that
  decimal.\<close>

definition spec_successRatePercent :: "int \<Rightarrow> int \<Rightarrow> rat" where
  "spec_successRatePercent tot pas =
     (if tot = 0 then 0
      else double (of_int \<lfloor>of_int pas / of_int tot * 100 * 100 + 1 / 2 :: rat\<rfloor> / 100))"

text \<open>The runs of a test name over all records, and those of them that failed or broke.\<close>

definition is_failure :: "test_status \<Rightarrow> bool" where
  "is_failure st = (st = failed \<or> st = broken)"

definition runs_of :: "AllureReportData list \<Rightarrow> string \<Rightarrow> AllureResult list" where
  "runs_of rs n = concat (map (\<lambda>r. filter (\<lambda>x. ar_name x = n) (rd_results r)) rs)"

definition failures_of :: "AllureReportData list \<Rightarrow> string \<Rightarrow> AllureResult list" where
  "failures_of rs n = filter (\<lambda>x. is_failure (ar_status x)) (runs_of rs n)"

text \<open>The order in which \<open>Object.values\<close> lists keys that were created in the order
  \<open>ks\<close>, and the test names in the order of their first appearance.\<close>

definition key_order :: "string list \<Rightarrow> string list" where
  "key_order ks = sort_key (radix_value 10) (filter is_array_index ks)
                  @ filter (\<lambda>k. \<not> is_array_index k) ks"


definition test_names :: "AllureReportData list \<Rightarrow> string list" where
  "test_names rs = concat (map (\<lambda>r. map ar_name (rd_results r)) rs)"

definition failure_rate :: "AllureReportData list \<Rightarrow> string \<Rightarrow> rat" where
  "failure_rate rs n =
     js_mul (js_div (of_nat (length (failures_of rs n))) (of_nat (length (runs_of rs n)))) 100"

section \<open>Example data\<close>

definition example_service :: JenkinsApiService where
  "example_service = \<lparr>baseURL = ''http://jenkins'', jsessionId = ''0123456789''\<rparr>"

definition mk_config :: "string \<Rightarrow> string \<Rightarrow> int \<Rightarrow> JenkinsBuildConfig" where
  "mk_config url job n =
     \<lparr>bc_name = job, bc_buildUrl = url, bc_jobName = job, bc_buildNumber = n,
      bc_description = None, bc_environment = None, bc_tags = None\<rparr>"

definition mk_result :: "string \<Rightarrow> test_status \<Rightarrow> AllureResult" where
  "mk_result n st =
     \<lparr>ar_uuid = [], ar_name = n, ar_fullName = n, ar_status = st,
      ar_start = 0, ar_stop = 0, ar_duration = 0\<rparr>"

definition mk_summary :: "int \<Rightarrow> int \<Rightarrow> int \<Rightarrow> AllureSummary" where
  "mk_summary tot pas fai =
     \<lparr>as_total = tot, as_passed = pas, as_failed = fai, as_broken = 0, as_skipped = 0,
      as_duration = 0, as_startTime = 0, as_endTime = 0\<rparr>"

definition mk_report ::
  "string \<Rightarrow> int \<Rightarrow> int \<Rightarrow> AllureSummary option \<Rightarrow> AllureResult list \<Rightarrow> AllureReportData" where
  "mk_report job n t s rs =
     \<lparr>rd_buildConfig =
        mk_config (''http://jenkins/job/'' @ job @ ''/'' @ string_of_int n @ ''/'') job n,
      rd_summary = s, rd_results = rs,
      rd_reportUrl = ''http://jenkins/job/'' @ job @ ''/'' @ string_of_int n @ ''/allure/'',
      rd_lastUpdated = t, rd_status = success, rd_errorMessage = None\<rparr>"

text \<open>Four networks: everything answers, only the summary times out, only the test
  results time out, nothing answers.\<close>

definition net_up :: network where
  "net_up = \<lparr>get_summary = (\<lambda>path. Inr (Some (mk_summary 10 8 2))),
            get_results = (\<lambda>path. Inr (Some [mk_result ''login'' passed]))\<rparr>"

definition net_summary_down :: network where
  "net_summary_down = \<lparr>get_summary = (\<lambda>path. Inl ''timeout of 30000ms exceeded''),
                      get_results = (\<lambda>path. Inr (Some [mk_result ''login'' passed]))\<rparr>"

definition net_results_down :: network where
  "net_results_down = \<lparr>get_summary = (\<lambda>path. Inr (Some (mk_summary 10 8 2))),
                      get_results = (\<lambda>path. Inl ''timeout of 30000ms exceeded'')\<rparr>"

definition net_down :: network where
  "net_down = \<lparr>get_summary = (\<lambda>path. Inl ''Network Error''),
              get_results = (\<lambda>path. Inl ''Network Error'')\<rparr>"


text \<open>A batch of three builds; the network is down for the second one.\<close>

definition example_configs :: "JenkinsBuildConfig list" where
  "example_configs =
     [mk_config ''http://jenkins/job/ui-tests/42/'' ''ui-tests'' 42,
      mk_config ''http://jenkins/job/api-tests/7/'' ''api-tests'' 7,
      mk_config ''http://jenkins/job/ui-tests/43/'' ''ui-tests'' 43]"

definition example_nets :: "nat \<Rightarrow> network" where
  "example_nets i = (if i = 1 then net_down else net_up)"

definition example_clock :: "nat \<Rightarrow> int" where
  "example_clock i = 1700000000000 + 250 * int i"

text \<open>Three reports for the trend: two of 14 November 2023, one of them without a summary,
  and one of the day before.\<close>

definition trend_reports :: "AllureReportData list" where
  "trend_reports =
     [mk_report ''ui-tests'' 42 1700000000000 (Some (mk_summary 7 5 2)) [],
      mk_report ''api-tests'' 7 1700003000000 None [mk_result ''login'' failed],
      mk_report ''ui-tests'' 41 1699900000000 (Some (mk_summary 10 8 2)) []]"




text \<open>A build in which a test named \<open>lastFailure\<close> and a test named \<open>__proto__\<close> fail.\<close>

definition proto_reports :: "AllureReportData list" where
  "proto_reports =
     [mk_report ''ui-tests'' 1 1700000000000 None
        [mk_result ''lastFailure'' failed, mk_result ''__proto__'' failed]]"

text \<open>A day on which 23 of 160 tests passed: 14.375 percent.\<close>

definition tie_day_reports :: "AllureReportData list" where
  "tie_day_reports =
     [mk_report ''ui-tests'' 1 1700000000000 (Some (mk_summary 160 23 137)) []]"

text \<open>One test name, \<open>login\<close>, in the reports of two different jobs.\<close>

definition shared_reports :: "AllureReportData list" where
  "shared_reports =
     [mk_report ''ui-tests'' 42 1700000000000 None [mk_result ''login'' failed],
      mk_report ''api-tests'' 7 1700000060000 None
        [mk_result ''login'' passed, mk_result ''login'' failed]]"

section \<open>The URL resolver\<close>

lemma indexOf_append: "y \<notin> set pre \<Longrightarrow> indexOf (pre @ y # rest) y = Some (length pre)"
  by (induction pre) auto

lemma indexOf_SomeD:
  "indexOf xs y = Some i \<Longrightarrow> \<exists>pre rest. xs = pre @ y # rest \<and> y \<notin> set pre \<and> length pre = i"
proof (induction xs arbitrary: i)
  case Nil
  then show ?case by simp
next
  case (Cons x xs)
  show ?case
  proof (cases "x = y")
    case True
    with Cons.prems have "i = 0" by simp
    with True show ?thesis by (intro exI [of _ "[]"] exI [of _ xs]) simp
  next
    case False
    with Cons.prems obtain j where j: "indexOf xs y = Some j" "i = Suc j" by auto
    from Cons.IH [OF j(1)] obtain pre rest
      where "xs = pre @ y # rest" "y \<notin> set pre" "length pre = j" by blast
    with False j(2) show ?thesis
      by (intro exI [of _ "x # pre"] exI [of _ rest]) simp
  qed
qed

lemma parseBuildUrl_SomeD:
  assumes "parseBuildUrl URL buildUrl = Some b"
  shows "\<exists>pathname pre num rest. URL buildUrl = Some pathname
           \<and> pathParts pathname = pre @ ''job'' # bi_jobName b # num # rest
           \<and> ''job'' \<notin> set pre \<and> parseInt num = Some (bi_buildNumber b)"
proof -
  from assms obtain pathname where p: "URL buildUrl = Some pathname"
    by (auto simp: parseBuildUrl_def split: option.splits)
  define parts where "parts = pathParts pathname"
  from assms p obtain i n where i: "indexOf parts ''job'' = Some i" "i + 2 < length parts"
      "parseInt (parts ! (i + 2)) = Some n" "b = \<lparr>bi_jobName = parts ! (i + 1), bi_buildNumber = n\<rparr>"
    by (auto simp: parseBuildUrl_def parts_def Let_def split: option.splits if_splits)
  from indexOf_SomeD [OF i(1)] obtain pre rest0
    where d: "parts = pre @ ''job'' # rest0" "''job'' \<notin> set pre" "length pre = i" by blast
  from d(1,3) i(2) have "2 \<le> length rest0" by simp
  then obtain a c rest where r: "rest0 = a # c # rest"
    by (cases rest0; cases "tl rest0") auto
  have "parts ! (i + 1) = a" "parts ! (i + 2) = c"
    using d(1,3) r by (simp_all add: nth_append)
  with i(3,4) d r p show ?thesis
    unfolding parts_def by auto
qed

lemma parseBuildUrl_SomeI:
  assumes "URL buildUrl = Some pathname"
    and "pathParts pathname = pre @ ''job'' # jn # num # rest"
    and "''job'' \<notin> set pre" and "parseInt num = Some n"
  shows "parseBuildUrl URL buildUrl = Some \<lparr>bi_jobName = jn, bi_buildNumber = n\<rparr>"
  using assms by (simp add: parseBuildUrl_def indexOf_append nth_append)

lemma decimal_not_special:
  assumes "is_radix_digit 10 c"
  shows "\<not> StrWhiteSpaceChar c" "c \<noteq> CHR ''-''" "c \<noteq> CHR ''+''" "c \<noteq> CHR ''x''" "c \<noteq> CHR ''X''"
  using assms by (auto simp: is_radix_digit_def digit_val_def StrWhiteSpaceChar_def)

lemma parseInt_decimal:
  assumes "s \<noteq> []" and "list_all (is_radix_digit 10) s"
  shows "parseInt s = Some (radix_value 10 s)"
proof -
  from assms obtain c cs where s: "s = c # cs" by (cases s) auto
  with assms(2) have c: "is_radix_digit 10 c" and cs: "list_all (is_radix_digit 10) cs" by auto
  have dw: "dropWhile StrWhiteSpaceChar s = s"
    using s decimal_not_special(1) [OF c] by simp
  have h: "hd s \<noteq> CHR ''-''" "hd s \<noteq> CHR ''+''"
    using s decimal_not_special(2,3) [OF c] by simp_all
  have t2: "take 2 s \<noteq> ''0x''" "take 2 s \<noteq> ''0X''"
    using s cs decimal_not_special(4,5) by (cases cs; auto)+
  have tw: "takeWhile (is_radix_digit 10) s = s"
    using assms(2) by (simp add: list_all_iff)
  show ?thesis
    by (simp add: parseInt_def Let_def dw h t2 tw assms(1))
qed

lemma radix_value_snoc:
  "radix_value R (Z @ [c]) = radix_value R Z * R + (case digit_val c of None \<Rightarrow> 0 | Some d \<Rightarrow> d)"
  by (simp add: radix_value_def)

lemma digit_val_char_of: "0 \<le> d \<Longrightarrow> d < 10 \<Longrightarrow> digit_val (digit_char d) = Some d"
  by (simp add: digit_val_def digit_char_def)

lemma is_radix_digit_char_of:
  "0 \<le> d \<Longrightarrow> d < 10 \<Longrightarrow> is_radix_digit 10 (digit_char d)"
  by (simp add: is_radix_digit_def digit_val_char_of)

lemma string_of_nat_digits:
  "0 \<le> n \<Longrightarrow> string_of_nat n \<noteq> [] \<and> list_all (is_radix_digit 10) (string_of_nat n)
      \<and> radix_value 10 (string_of_nat n) = n"
proof (induction n rule: string_of_nat.induct)
  case (1 n)
  show ?case
  proof (cases "10 \<le> n")
    case True
    then have "0 \<le> n div 10" by simp
    from "1.IH" [OF True this] True show ?thesis
      by (subst (1 2 3) string_of_nat.simps)
         (simp add: is_radix_digit_char_of digit_val_char_of radix_value_snoc)
  next
    case False
    with "1.prems" show ?thesis
      by (subst (1 2 3) string_of_nat.simps)
         (simp add: is_radix_digit_char_of digit_val_char_of radix_value_def)
  qed
qed

lemma parseInt_string_of_nat: "0 \<le> n \<Longrightarrow> parseInt (string_of_nat n) = Some n"
  using string_of_nat_digits [of n] parseInt_decimal [of "string_of_nat n"] by simp

text \<open>
  C4, as the code has it. \<open>parseBuildUrl\<close> succeeds exactly when the \<open>URL\<close> constructor
  accepts the string and, among the non-empty segments of its path, the first segment
  equal to \<open>job\<close> is followed by at least two more segments of which the second is
  accepted by \<open>parseInt\<close>; it then returns the segment after that first \<open>job\<close> verbatim
  as \<open>jobName\<close> and the value of \<open>parseInt\<close> as \<open>buildNumber\<close>. The value is stated for
  the integers of magnitude below \<open>2^53\<close>, which a JavaScript number holds exactly: a
  segment that is the decimal text of such a non-negative integer is accepted with
  that integer as its value. (\<open>parseInt\<close> also accepts a sign, a hexadecimal prefix and
  trailing characters, so the build number may be negative, and a \<open>job\<close> segment after
  the first one is not looked at.)
\<close>

theorem parseBuildUrl_first_job_segment:
  "(parseBuildUrl URL buildUrl \<noteq> None
      \<longleftrightarrow> (\<exists>pathname pre jn' num rest.
              URL buildUrl = Some pathname
              \<and> pathParts pathname = pre @ ''job'' # jn' # num # rest
              \<and> ''job'' \<notin> set pre
              \<and> parseInt num \<noteq> None))
   \<and> (safe_integer n \<longrightarrow>
        (parseBuildUrl URL buildUrl = Some \<lparr>bi_jobName = jn, bi_buildNumber = n\<rparr>
           \<longleftrightarrow> (\<exists>pathname pre num rest.
                   URL buildUrl = Some pathname
                   \<and> pathParts pathname = pre @ ''job'' # jn # num # rest
                   \<and> ''job'' \<notin> set pre
                   \<and> parseInt num = Some n)))
   \<and> (0 \<le> k \<and> safe_integer k \<longrightarrow> parseInt (string_of_nat k) = Some k)"
proof (intro conjI iffI impI)
  assume "parseBuildUrl URL buildUrl \<noteq> None"
  then obtain b where "parseBuildUrl URL buildUrl = Some b"
    by blast
  from parseBuildUrl_SomeD [OF this]
  show "\<exists>pathname pre jn' num rest.
          URL buildUrl = Some pathname
          \<and> pathParts pathname = pre @ ''job'' # jn' # num # rest
          \<and> ''job'' \<notin> set pre
          \<and> parseInt num \<noteq> None"
    by force
next
  assume "\<exists>pathname pre jn' num rest.
            URL buildUrl = Some pathname
            \<and> pathParts pathname = pre @ ''job'' # jn' # num # rest
            \<and> ''job'' \<notin> set pre
            \<and> parseInt num \<noteq> None"
  then obtain pathname pre jn' num rest m where
    "URL buildUrl = Some pathname" "pathParts pathname = pre @ ''job'' # jn' # num # rest"
    "''job'' \<notin> set pre" "parseInt num = Some m"
    by blast
  then have "parseBuildUrl URL buildUrl = Some \<lparr>bi_jobName = jn', bi_buildNumber = m\<rparr>"
    by (rule parseBuildUrl_SomeI)
  then show "parseBuildUrl URL buildUrl \<noteq> None"
    by simp
next
  assume "parseBuildUrl URL buildUrl = Some \<lparr>bi_jobName = jn, bi_buildNumber = n\<rparr>"
  from parseBuildUrl_SomeD [OF this]
  show "\<exists>pathname pre num rest.
          URL buildUrl = Some pathname
          \<and> pathParts pathname = pre @ ''job'' # jn # num # rest
          \<and> ''job'' \<notin> set pre
          \<and> parseInt num = Some n"
    by simp
next
  assume "\<exists>pathname pre num rest.
            URL buildUrl = Some pathname
            \<and> pathParts pathname = pre @ ''job'' # jn # num # rest
            \<and> ''job'' \<notin> set pre
            \<and> parseInt num = Some n"
  then show "parseBuildUrl URL buildUrl = Some \<lparr>bi_jobName = jn, bi_buildNumber = n\<rparr>"
    using parseBuildUrl_SomeI by blast
next
  assume "0 \<le> k \<and> safe_integer k"
  then show "parseInt (string_of_nat k) = Some k"
    by (simp add: parseInt_string_of_nat)
qed

text \<open>The resolver at \<open>http://jenkins/job/ui-tests/42/\<close>.\<close>

theorem parseBuildUrl_first_job_segment_witness:
  "safe_integer 42
   \<and> parseBuildUrl URL_pathname_http ''http://jenkins/job/ui-tests/42/''
       = Some \<lparr>bi_jobName = ''ui-tests'', bi_buildNumber = 42\<rparr>
   \<and> parseBuildUrl URL_pathname_http ''http://jenkins/job/ui-tests/42/'' \<noteq> None
   \<and> (0::int) \<le> 42 \<and> parseInt (string_of_nat 42) = Some 42"
proof -
  have s: "safe_integer 42"
    by (simp add: safe_integer_def)
  have u: "URL_pathname_http ''http://jenkins/job/ui-tests/42/'' = Some ''/job/ui-tests/42/''"
    by code_simp
  have p: "pathParts ''/job/ui-tests/42/'' = [] @ ''job'' # ''ui-tests'' # ''42'' # []"
    by code_simp
  have n: "parseInt ''42'' = Some 42"
    by code_simp
  have e: "\<exists>pathname pre num rest.
          URL_pathname_http ''http://jenkins/job/ui-tests/42/'' = Some pathname
          \<and> pathParts pathname = pre @ ''job'' # ''ui-tests'' # num # rest
          \<and> ''job'' \<notin> set pre
          \<and> parseInt num = Some 42"
    using u p n by (intro exI [of _ "''/job/ui-tests/42/''"] exI [of _ "[]"] exI [of _ "''42''"]) simp
  from parseBuildUrl_first_job_segment
         [of URL_pathname_http "''http://jenkins/job/ui-tests/42/''" 42 "''ui-tests''" 42]
  have "safe_integer 42 \<longrightarrow>
          (parseBuildUrl URL_pathname_http ''http://jenkins/job/ui-tests/42/''
             = Some \<lparr>bi_jobName = ''ui-tests'', bi_buildNumber = 42\<rparr>
           \<longleftrightarrow> (\<exists>pathname pre num rest.
                   URL_pathname_http ''http://jenkins/job/ui-tests/42/'' = Some pathname
                   \<and> pathParts pathname = pre @ ''job'' # ''ui-tests'' # num # rest
                   \<and> ''job'' \<notin> set pre
                   \<and> parseInt num = Some 42))"
    and "0 \<le> (42::int) \<and> safe_integer 42 \<longrightarrow> parseInt (string_of_nat 42) = Some 42"
    by blast+
  with s e show ?thesis
    by simp
qed

text \<open>
  C4 as the specification states it fails in both directions. The build URL
  \<open>http://jenkins/job/a/-5/\<close> resolves, to build number \<open>-5\<close>, although its third
  segment is not a non-negative integer; and \<open>http://jenkins/job/folder/job/app/7/\<close>
  does not resolve, although its path contains \<open>job\<close>, \<open>app\<close>, \<open>7\<close>.
\<close>

theorem parseBuildUrl_counterexample:
  "parseBuildUrl URL_pathname_http ''http://jenkins/job/a/-5/''
     = Some \<lparr>bi_jobName = ''a'', bi_buildNumber = - 5\<rparr>
   \<and> \<not> spec_resolvable URL_pathname_http ''http://jenkins/job/a/-5/''
   \<and> parseBuildUrl URL_pathname_http ''http://jenkins/job/folder/job/app/7/'' = None
   \<and> spec_resolvable URL_pathname_http ''http://jenkins/job/folder/job/app/7/''"
  by code_simp

section \<open>The report fetcher\<close>

lemma getAllureSummary_Inr: "\<exists>v. getAllureSummary URL net buildUrl = Inr v"
  by (simp add: getAllureSummary_def split: option.split sum.split)

lemma getAllureResults_Inr: "\<exists>v. getAllureResults URL net buildUrl = Inr v"
  by (simp add: getAllureResults_def split: option.split sum.split)

text \<open>Neither reader rejects, so the \<open>catch\<close> block of \<open>getAllureReportData\<close> is never
  entered: the record always comes from the \<open>try\<close> block.\<close>

lemma getAllureReportData_success:
  "getAllureReportData svc URL net now cfg =
     Inr \<lparr>rd_buildConfig = cfg,
          rd_summary = projr (getAllureSummary URL net (bc_buildUrl cfg)),
          rd_results = projr (getAllureResults URL net (bc_buildUrl cfg)),
          rd_reportUrl = getAllureReportUrl svc URL (bc_buildUrl cfg),
          rd_lastUpdated = now,
          rd_status = success,
          rd_errorMessage = None\<rparr>"
proof -
  obtain s where s: "getAllureSummary URL net (bc_buildUrl cfg) = Inr s"
    using getAllureSummary_Inr by blast
  obtain r where r: "getAllureResults URL net (bc_buildUrl cfg) = Inr r"
    using getAllureResults_Inr by blast
  show ?thesis
    by (simp add: getAllureReportData_def Promise_all2_def s r)
qed

lemma getAllureSummary_resolved:
  "parseBuildUrl URL buildUrl = Some bi \<Longrightarrow>
     getAllureSummary URL net buildUrl =
       Inr (case get_summary net (summary_path bi) of Inl e \<Rightarrow> None | Inr d \<Rightarrow> d)"
  by (simp add: getAllureSummary_def split: sum.split)

lemma getAllureResults_resolved:
  "parseBuildUrl URL buildUrl = Some bi \<Longrightarrow>
     getAllureResults URL net buildUrl =
       Inr (case get_results net (results_path bi) of
              Inl e \<Rightarrow> [] | Inr None \<Rightarrow> [] | Inr (Some rs) \<Rightarrow> rs)"
  by (simp add: getAllureResults_def split: sum.split option.split)

lemma getAllureSummary_unresolved:
  "parseBuildUrl URL buildUrl = None \<Longrightarrow> getAllureSummary URL net buildUrl = Inr None"
  by (simp add: getAllureSummary_def)

lemma getAllureResults_unresolved:
  "parseBuildUrl URL buildUrl = None \<Longrightarrow> getAllureResults URL net buildUrl = Inr []"
  by (simp add: getAllureResults_def)

text \<open>
  C1. For a build configuration whose URL resolves, the fetcher returns a record; its
  status is \<open>error\<close> only if both reads failed; if at least one read succeeded the status
  is \<open>success\<close>; the summary is absent when the summary read failed and the results are
  empty when the read of the test results failed; a read that succeeded is passed on.
\<close>

theorem getAllureReportData_partial:
  assumes "parseBuildUrl URL (bc_buildUrl cfg) = Some bi"
  shows "\<exists>r. getAllureReportData svc URL net now cfg = Inr r
           \<and> (rd_status r = error \<longrightarrow>
                isl (get_summary net (summary_path bi)) \<and> isl (get_results net (results_path bi)))
           \<and> (\<not> isl (get_summary net (summary_path bi)) \<or> \<not> isl (get_results net (results_path bi))
                \<longrightarrow> rd_status r = success)
           \<and> (isl (get_summary net (summary_path bi)) \<longrightarrow> rd_summary r = None)
           \<and> (isl (get_results net (results_path bi)) \<longrightarrow> rd_results r = [])
           \<and> (\<forall>d. get_summary net (summary_path bi) = Inr d \<longrightarrow> rd_summary r = d)
           \<and> (\<forall>d. get_results net (results_path bi) = Inr (Some d) \<longrightarrow> rd_results r = d)"
  by (auto simp: getAllureReportData_success getAllureSummary_resolved [OF assms]
        getAllureResults_resolved [OF assms] split: sum.splits)

text \<open>Partial success: the summary read times out, the test results arrive.\<close>

theorem getAllureReportData_partial_witness:
  "parseBuildUrl URL_pathname_http
     (bc_buildUrl (mk_config ''http://jenkins/job/ui-tests/42/'' ''ui-tests'' 42))
     = Some \<lparr>bi_jobName = ''ui-tests'', bi_buildNumber = 42\<rparr>
   \<and> isl (get_summary net_summary_down
             (summary_path \<lparr>bi_jobName = ''ui-tests'', bi_buildNumber = 42\<rparr>))
   \<and> \<not> isl (get_results net_summary_down
               (results_path \<lparr>bi_jobName = ''ui-tests'', bi_buildNumber = 42\<rparr>))
   \<and> (\<exists>r. getAllureReportData example_service URL_pathname_http net_summary_down 1700000000000
              (mk_config ''http://jenkins/job/ui-tests/42/'' ''ui-tests'' 42) = Inr r
          \<and> rd_status r = success \<and> rd_summary r = None
          \<and> rd_results r = [mk_result ''login'' passed])"
proof -
  have h: "parseBuildUrl URL_pathname_http
             (bc_buildUrl (mk_config ''http://jenkins/job/ui-tests/42/'' ''ui-tests'' 42))
           = Some \<lparr>bi_jobName = ''ui-tests'', bi_buildNumber = 42\<rparr>"
    by code_simp
  have s: "get_summary net_summary_down p = Inl ''timeout of 30000ms exceeded''" for p
    by (simp add: net_summary_down_def)
  have r: "get_results net_summary_down p = Inr (Some [mk_result ''login'' passed])" for p
    by (simp add: net_summary_down_def)
  from getAllureReportData_partial [OF h, of example_service net_summary_down 1700000000000]
  show ?thesis
    unfolding s r using h by auto
qed

text \<open>
  C2 at the build URL \<open>jenkins/job/ui-tests/42\<close>, which has no scheme and which the
  \<open>URL\<close> constructor rejects: the record has status \<open>success\<close> and no error message.
  Each reader throws \<open>Invalid build URL format\<close> inside its own \<open>try\<close> block and
  swallows it, so the \<open>catch\<close> block of \<open>getAllureReportData\<close>, which would build the
  record with status \<open>error\<close> and that message, is not reached.
\<close>

theorem getAllureReportData_unresolved_url:
  "getAllureReportData example_service URL_pathname_http net_up 1700000000000
     (mk_config ''jenkins/job/ui-tests/42'' ''ui-tests'' 42)
   = Inr \<lparr>rd_buildConfig = mk_config ''jenkins/job/ui-tests/42'' ''ui-tests'' 42,
          rd_summary = None, rd_results = [], rd_reportUrl = ''jenkins/job/ui-tests/42'',
          rd_lastUpdated = 1700000000000, rd_status = success, rd_errorMessage = None\<rparr>"
proof -
  have "parseBuildUrl URL_pathname_http ''jenkins/job/ui-tests/42'' = None"
    by code_simp
  then show ?thesis
    by (simp add: getAllureReportData_success getAllureSummary_unresolved
          getAllureResults_unresolved getAllureReportUrl_def mk_config_def)
qed

text \<open>The end-to-end example of the specification: the summary arrives and the read of
  the test results times out.\<close>

lemma getAllureReportData_detail_timeout:
  "getAllureReportData example_service URL_pathname_http net_results_down 1700000000000
     (mk_config ''http://jenkins/job/ui-tests/42/'' ''ui-tests'' 42)
   = Inr \<lparr>rd_buildConfig = mk_config ''http://jenkins/job/ui-tests/42/'' ''ui-tests'' 42,
          rd_summary = Some (mk_summary 10 8 2), rd_results = [],
          rd_reportUrl = ''http://jenkins/job/ui-tests/42/allure/'',
          rd_lastUpdated = 1700000000000, rd_status = success, rd_errorMessage = None\<rparr>"
  by code_simp

text \<open>With both reads failing the record is the same as for an unresolved URL, but for
  the report URL: its status is \<open>success\<close>.\<close>

lemma getAllureReportData_both_fail:
  "getAllureReportData example_service URL_pathname_http net_down 1700000000000
     (mk_config ''http://jenkins/job/ui-tests/42/'' ''ui-tests'' 42)
   = Inr \<lparr>rd_buildConfig = mk_config ''http://jenkins/job/ui-tests/42/'' ''ui-tests'' 42,
          rd_summary = None, rd_results = [],
          rd_reportUrl = ''http://jenkins/job/ui-tests/42/allure/'',
          rd_lastUpdated = 1700000000000, rd_status = success, rd_errorMessage = None\<rparr>"
  by code_simp

lemma encodeURIComponent_unreserved:
  "list_all uriUnreserved s \<Longrightarrow> encodeURIComponent s = s"
  by (induction s) (simp_all add: encodeURIComponent_def)

text \<open>
  C9, as the code has it. The record always carries a report URL, and the URL does not
  depend on the network or on the clock. When the build URL does not resolve it is
  the build URL itself. When the build URL resolves to a job name made of characters
  that \<open>encodeURIComponent\<close> leaves alone and to a build number of magnitude below
  \<open>2^53\<close>, it is \<open>{base}/job/{job}/{n}/allure/\<close>.
\<close>

theorem getAllureReportUrl_in_record:
  "\<exists>r. getAllureReportData svc URL net now cfg = Inr r
      \<and> (parseBuildUrl URL (bc_buildUrl cfg) = None \<longrightarrow> rd_reportUrl r = bc_buildUrl cfg)
      \<and> (\<forall>bi. parseBuildUrl URL (bc_buildUrl cfg) = Some bi
                \<and> list_all uriUnreserved (bi_jobName bi) \<and> safe_integer (bi_buildNumber bi)
             \<longrightarrow> rd_reportUrl r =
                   baseURL svc @ ''/job/'' @ bi_jobName bi @ ''/''
                   @ string_of_int (bi_buildNumber bi) @ ''/allure/'')
      \<and> (\<forall>net' now' r'. getAllureReportData svc URL net' now' cfg = Inr r'
             \<longrightarrow> rd_reportUrl r' = rd_reportUrl r)"
  by (simp add: getAllureReportData_success getAllureReportUrl_def encodeURIComponent_unreserved)

text \<open>The report URL of build 42 of \<open>ui-tests\<close>, with the network down and with it up, and
  the report URL for a build URL that lacks its scheme.\<close>

theorem getAllureReportUrl_in_record_witness:
  "parseBuildUrl URL_pathname_http ''http://jenkins/job/ui-tests/42/''
     = Some \<lparr>bi_jobName = ''ui-tests'', bi_buildNumber = 42\<rparr>
   \<and> list_all uriUnreserved ''ui-tests'' \<and> safe_integer 42
   \<and> rd_reportUrl (projr (getAllureReportData example_service URL_pathname_http net_down
                             1700000000000
                             (mk_config ''http://jenkins/job/ui-tests/42/'' ''ui-tests'' 42)))
       = ''http://jenkins/job/ui-tests/42/allure/''
   \<and> rd_reportUrl (projr (getAllureReportData example_service URL_pathname_http net_up
                             1700000060000
                             (mk_config ''http://jenkins/job/ui-tests/42/'' ''ui-tests'' 42)))
       = ''http://jenkins/job/ui-tests/42/allure/''
   \<and> parseBuildUrl URL_pathname_http ''jenkins/job/ui-tests/42'' = None
   \<and> rd_reportUrl (projr (getAllureReportData example_service URL_pathname_http net_up
                             1700000060000
                             (mk_config ''jenkins/job/ui-tests/42'' ''ui-tests'' 42)))
       = ''jenkins/job/ui-tests/42''"
proof -
  have h: "parseBuildUrl URL_pathname_http
             (bc_buildUrl (mk_config ''http://jenkins/job/ui-tests/42/'' ''ui-tests'' 42))
           = Some \<lparr>bi_jobName = ''ui-tests'', bi_buildNumber = 42\<rparr>"
    by code_simp
  have g: "list_all uriUnreserved (bi_jobName \<lparr>bi_jobName = ''ui-tests'', bi_buildNumber = 42\<rparr>)"
    by code_simp
  have s: "safe_integer (bi_buildNumber \<lparr>bi_jobName = ''ui-tests'', bi_buildNumber = 42\<rparr>)"
    by (simp add: safe_integer_def)
  have e: "baseURL example_service @ ''/job/''
             @ bi_jobName \<lparr>bi_jobName = ''ui-tests'', bi_buildNumber = 42\<rparr> @ ''/''
             @ string_of_int (bi_buildNumber \<lparr>bi_jobName = ''ui-tests'', bi_buildNumber = 42\<rparr>)
             @ ''/allure/'' = ''http://jenkins/job/ui-tests/42/allure/''"
    by code_simp
  from getAllureReportUrl_in_record
         [of example_service URL_pathname_http net_down 1700000000000
             "mk_config ''http://jenkins/job/ui-tests/42/'' ''ui-tests'' 42"]
  obtain r where r: "getAllureReportData example_service URL_pathname_http net_down 1700000000000
                       (mk_config ''http://jenkins/job/ui-tests/42/'' ''ui-tests'' 42) = Inr r"
    and u0: "\<And>bi. parseBuildUrl URL_pathname_http
                     (bc_buildUrl (mk_config ''http://jenkins/job/ui-tests/42/'' ''ui-tests'' 42))
                     = Some bi
                   \<and> list_all uriUnreserved (bi_jobName bi) \<and> safe_integer (bi_buildNumber bi)
               \<Longrightarrow> rd_reportUrl r =
                     baseURL example_service @ ''/job/'' @ bi_jobName bi @ ''/''
                     @ string_of_int (bi_buildNumber bi) @ ''/allure/''"
    and i: "\<And>net' now' r'.
              getAllureReportData example_service URL_pathname_http net' now'
                (mk_config ''http://jenkins/job/ui-tests/42/'' ''ui-tests'' 42) = Inr r'
              \<Longrightarrow> rd_reportUrl r' = rd_reportUrl r"
    by blast
  from u0 [of "\<lparr>bi_jobName = ''ui-tests'', bi_buildNumber = 42\<rparr>"] h g s
  have u: "rd_reportUrl r = ''http://jenkins/job/ui-tests/42/allure/''"
    unfolding e by blast
  have "getAllureReportData example_service URL_pathname_http net_up 1700000060000
          (mk_config ''http://jenkins/job/ui-tests/42/'' ''ui-tests'' 42)
        = Inr (projr (getAllureReportData example_service URL_pathname_http net_up 1700000060000
                        (mk_config ''http://jenkins/job/ui-tests/42/'' ''ui-tests'' 42)))"
    by (simp add: getAllureReportData_success)
  from i [OF this] r u
  have a: "rd_reportUrl (projr (getAllureReportData example_service URL_pathname_http net_down
                             1700000000000
                             (mk_config ''http://jenkins/job/ui-tests/42/'' ''ui-tests'' 42)))
             = ''http://jenkins/job/ui-tests/42/allure/''"
    "rd_reportUrl (projr (getAllureReportData example_service URL_pathname_http net_up
                             1700000060000
                             (mk_config ''http://jenkins/job/ui-tests/42/'' ''ui-tests'' 42)))
             = ''http://jenkins/job/ui-tests/42/allure/''"
    by simp_all
  have n: "parseBuildUrl URL_pathname_http
             (bc_buildUrl (mk_config ''jenkins/job/ui-tests/42'' ''ui-tests'' 42)) = None"
    by code_simp
  have b: "bc_buildUrl (mk_config ''jenkins/job/ui-tests/42'' ''ui-tests'' 42)
             = ''jenkins/job/ui-tests/42''"
    by code_simp
  from getAllureReportUrl_in_record
         [of example_service URL_pathname_http net_up 1700000060000
             "mk_config ''jenkins/job/ui-tests/42'' ''ui-tests'' 42"]
  have "\<exists>r2. getAllureReportData example_service URL_pathname_http net_up 1700000060000
                (mk_config ''jenkins/job/ui-tests/42'' ''ui-tests'' 42) = Inr r2
              \<and> (parseBuildUrl URL_pathname_http
                    (bc_buildUrl (mk_config ''jenkins/job/ui-tests/42'' ''ui-tests'' 42)) = None
                  \<longrightarrow> rd_reportUrl r2
                        = bc_buildUrl (mk_config ''jenkins/job/ui-tests/42'' ''ui-tests'' 42))"
    by (elim exE conjE, intro exI conjI)
  with n b
  have c: "rd_reportUrl (projr (getAllureReportData example_service URL_pathname_http net_up
                             1700000060000
                             (mk_config ''jenkins/job/ui-tests/42'' ''ui-tests'' 42)))
             = ''jenkins/job/ui-tests/42''"
    by auto
  have h': "parseBuildUrl URL_pathname_http ''http://jenkins/job/ui-tests/42/''
              = Some \<lparr>bi_jobName = ''ui-tests'', bi_buildNumber = 42\<rparr>"
    by code_simp
  have g': "list_all uriUnreserved ''ui-tests''"
    by code_simp
  have s': "safe_integer 42"
    by (simp add: safe_integer_def)
  have n': "parseBuildUrl URL_pathname_http ''jenkins/job/ui-tests/42'' = None"
    by code_simp
  from h' g' s' a n' c show ?thesis
    by (intro conjI)
qed

text \<open>
  C9 as the specification states it fails. The build URL \<open>jenkins/job/ui-tests/42\<close>
  does not resolve, so there is no job name and no build number to compute from: the
  report URL of the record is that string, which is not a URL under the base URL.
\<close>

theorem getAllureReportUrl_counterexample:
  "parseBuildUrl URL_pathname_http ''jenkins/job/ui-tests/42'' = None
   \<and> rd_reportUrl (projr (getAllureReportData example_service URL_pathname_http net_up 1700000000000
                            (mk_config ''jenkins/job/ui-tests/42'' ''ui-tests'' 42)))
       = ''jenkins/job/ui-tests/42''
   \<and> baseURL example_service = ''http://jenkins''"
  by code_simp

text \<open>A job name that the path carries percent-encoded is encoded once more: for
  \<open>http://jenkins/job/my%20job/5/\<close> the report URL has \<open>my%2520job\<close> in the place of the
  job name.\<close>

lemma getAllureReportUrl_encoded_twice:
  "parseBuildUrl URL_pathname_http ''http://jenkins/job/my%20job/5/''
     = Some \<lparr>bi_jobName = ''my%20job'', bi_buildNumber = 5\<rparr>
   \<and> getAllureReportUrl example_service URL_pathname_http ''http://jenkins/job/my%20job/5/''
       = ''http://jenkins/job/my%2520job/5/allure/''"
  by code_simp

section \<open>The batch aggregator\<close>

lemma Promise_all_Inr: "Promise_all (map Inr vs) = Inr vs"
  by (induction vs) auto

lemma getAllureReportsForBuilds_eq:
  "getAllureReportsForBuilds svc URL nets clock cfgs =
     Inr (map (\<lambda>(i, config). projr (getAllureReportData svc URL (nets i) (clock i) config))
              (enumerate 0 cfgs))"
proof -
  have "map (\<lambda>(i, config). getAllureReportData svc URL (nets i) (clock i) config) (enumerate 0 cfgs)
        = map Inr (map (\<lambda>(i, config). projr (getAllureReportData svc URL (nets i) (clock i) config))
                       (enumerate 0 cfgs))"
    by (simp add: getAllureReportData_success split_def)
  then show ?thesis
    by (simp only: getAllureReportsForBuilds_def Promise_all_Inr)
qed

text \<open>
  C3. For a list of \<open>N\<close> build configurations the batch aggregator returns \<open>N\<close> records,
  the record at position \<open>i\<close> being the one the fetcher returns for the configuration at
  position \<open>i\<close>; and whatever happens to the reads of build \<open>j\<close>, the records of the
  other builds are returned, and are the same.
\<close>

theorem getAllureReportsForBuilds_order:
  "\<exists>records. getAllureReportsForBuilds svc URL nets clock cfgs = Inr records
      \<and> length records = length cfgs
      \<and> (\<forall>i < length cfgs.
            getAllureReportData svc URL (nets i) (clock i) (cfgs ! i) = Inr (records ! i)
            \<and> rd_buildConfig (records ! i) = cfgs ! i)
      \<and> (\<forall>nets' j. (\<forall>i. i \<noteq> j \<longrightarrow> nets' i = nets i) \<longrightarrow>
            (\<exists>records'. getAllureReportsForBuilds svc URL nets' clock cfgs = Inr records'
               \<and> length records' = length cfgs
               \<and> (\<forall>i < length cfgs. i \<noteq> j \<longrightarrow> records' ! i = records ! i)))"
  by (simp add: getAllureReportsForBuilds_eq nth_enumerate_eq getAllureReportData_success)


text \<open>Three builds, the second with both reads failing: three records come back, in
  the order of the configurations, the second one empty.\<close>

theorem getAllureReportsForBuilds_order_witness:
  "(1::nat) < length example_configs
   \<and> (\<exists>records.
         getAllureReportsForBuilds example_service URL_pathname_http example_nets example_clock
           example_configs = Inr records
         \<and> length records = 3
         \<and> rd_buildConfig (records ! 1) = example_configs ! 1
         \<and> rd_summary (records ! 1) = None \<and> rd_results (records ! 1) = []
         \<and> rd_summary (records ! 0) = Some (mk_summary 10 8 2)
         \<and> rd_summary (records ! 2) = Some (mk_summary 10 8 2))"
proof -
  have len: "length example_configs = 3"
    by (simp add: example_configs_def)
  from getAllureReportsForBuilds_order
         [of example_service URL_pathname_http example_nets example_clock example_configs]
  obtain records
    where r: "getAllureReportsForBuilds example_service URL_pathname_http example_nets
                example_clock example_configs = Inr records"
      and l: "length records = length example_configs"
      and each: "\<And>i. i < length example_configs \<Longrightarrow>
                   getAllureReportData example_service URL_pathname_http (example_nets i)
                     (example_clock i) (example_configs ! i) = Inr (records ! i)
                   \<and> rd_buildConfig (records ! i) = example_configs ! i"
    by blast
  have s0: "projr (getAllureSummary URL_pathname_http (example_nets 0)
                     (bc_buildUrl (example_configs ! 0))) = Some (mk_summary 10 8 2)"
    by code_simp
  have s1: "projr (getAllureSummary URL_pathname_http (example_nets 1)
                     (bc_buildUrl (example_configs ! 1))) = None"
    by code_simp
  have r1: "projr (getAllureResults URL_pathname_http (example_nets 1)
                     (bc_buildUrl (example_configs ! 1))) = []"
    by code_simp
  have s2: "projr (getAllureSummary URL_pathname_http (example_nets 2)
                     (bc_buildUrl (example_configs ! 2))) = Some (mk_summary 10 8 2)"
    by code_simp
  have e: "records ! i =
             projr (getAllureReportData example_service URL_pathname_http (example_nets i)
                      (example_clock i) (example_configs ! i))" if "i < 3" for i
    using each [of i] that by (simp add: len)
  have a0: "rd_summary (records ! 0) = Some (mk_summary 10 8 2)"
    using s0 by (simp add: e getAllureReportData_success)
  have a1: "rd_summary (records ! 1) = None" "rd_results (records ! 1) = []"
    "rd_buildConfig (records ! 1) = example_configs ! 1"
    using s1 r1 by (simp_all add: e getAllureReportData_success)
  have a2: "rd_summary (records ! 2) = Some (mk_summary 10 8 2)"
    using s2 by (simp add: e getAllureReportData_success)
  from r l a0 a1 a2 show ?thesis
    by (simp add: len)
qed


section \<open>The trend deriver\<close>

lemma map_of_push_group:
  "map_of (push_group k v obj) k' =
     (if k' = k then Some ((case map_of obj k of None \<Rightarrow> [] | Some vs \<Rightarrow> vs) @ [v])
      else map_of obj k')"
  by (induction k v obj rule: push_group.induct) auto

lemma keys_push_group:
  "set (map fst (push_group k v obj)) = insert k (set (map fst obj))"
  by (induction k v obj rule: push_group.induct) auto

lemma distinct_push_group:
  "distinct (map fst obj) \<Longrightarrow> distinct (map fst (push_group k v obj))"
  by (induction k v obj rule: push_group.induct) (auto simp: keys_push_group [simplified])

lemma set_own_entries [simp]: "set (own_entries obj) = set obj"
  by (auto simp: own_entries_def)

lemma distinct_own_entries:
  "distinct (map fst obj) \<Longrightarrow> distinct (map fst (own_entries obj))"
  by (auto simp: own_entries_def distinct_map inj_on_def)

lemma aggregatedResults_foldl:
  "foldl (\<lambda>(tot, pas, fai) report.
            case rd_summary report of
              None \<Rightarrow> (tot, pas, fai)
            | Some s \<Rightarrow> (tot + as_total s, pas + as_passed s, fai + as_failed s))
         (a, b, c) reports
   = (a + sum_list (map total_of reports), b + sum_list (map passed_of reports),
      c + sum_list (map failed_of reports))"
  by (induction reports arbitrary: a b c)
     (auto simp: total_of_def passed_of_def failed_of_def split: option.split)

lemma aggregatedResults_sums:
  "aggregatedResults reports =
     (sum_list (map total_of reports), sum_list (map passed_of reports),
      sum_list (map failed_of reports))"
  by (simp add: aggregatedResults_def aggregatedResults_foldl)

lemma map_of_reportsByDate_step:
  "map_of (reportsByDate_step fmt acc r) k =
     (if rd_summary r \<noteq> None \<and> fmt (rd_lastUpdated r) = k
      then Some ((case map_of acc k of None \<Rightarrow> [] | Some vs \<Rightarrow> vs) @ [r])
      else map_of acc k)"
  by (simp add: reportsByDate_step_def map_of_push_group)

lemma distinct_reportsByDate_step:
  "distinct (map fst acc) \<Longrightarrow> distinct (map fst (reportsByDate_step fmt acc r))"
  by (simp add: reportsByDate_step_def distinct_push_group)

lemma reportsByDate_foldl:
  "map_of (foldl (reportsByDate_step fmt) acc rs) k
   = (let new = filter (\<lambda>r. rd_summary r \<noteq> None \<and> fmt (rd_lastUpdated r) = k) rs
      in case map_of acc k of
           None \<Rightarrow> if new = [] then None else Some new
         | Some vs \<Rightarrow> Some (vs @ new))"
proof (induction rs arbitrary: acc)
  case Nil
  then show ?case by (simp split: option.split)
next
  case (Cons r rs)
  show ?case
    by (simp add: Cons.IH map_of_reportsByDate_step Let_def split: option.split)
qed

lemma distinct_reportsByDate_foldl:
  "distinct (map fst acc) \<Longrightarrow> distinct (map fst (foldl (reportsByDate_step fmt) acc rs))"
  by (induction rs arbitrary: acc) (simp_all add: distinct_reportsByDate_step)

lemma map_of_reportsByDate:
  "map_of (reportsByDate fmt rs) k =
     (if filter (\<lambda>r. rd_summary r \<noteq> None \<and> fmt (rd_lastUpdated r) = k) rs = [] then None
      else Some (filter (\<lambda>r. rd_summary r \<noteq> None \<and> fmt (rd_lastUpdated r) = k) rs))"
  by (simp add: reportsByDate_def reportsByDate_foldl Let_def)

lemma distinct_reportsByDate: "distinct (map fst (reportsByDate fmt rs))"
  by (simp add: reportsByDate_def distinct_reportsByDate_foldl)

lemma reportsByDate_entry:
  "(k, vs) \<in> set (reportsByDate fmt rs) \<longleftrightarrow>
     vs \<noteq> [] \<and> vs = filter (\<lambda>r. rd_summary r \<noteq> None \<and> fmt (rd_lastUpdated r) = k) rs"
proof -
  have "(k, vs) \<in> set (reportsByDate fmt rs) \<longleftrightarrow> map_of (reportsByDate fmt rs) k = Some vs"
    using distinct_reportsByDate [of fmt rs] by simp
  then show ?thesis
    unfolding map_of_reportsByDate by (auto split: if_splits)
qed

lemma trend_dates:
  "map ht_date (generateHistoricalTrendData fmt rs) =
     map fst (sort_key fst (own_entries (reportsByDate fmt rs)))"
  by (cases "rs = []")
     (simp_all add: generateHistoricalTrendData_def reportsByDate_def own_entries_def split_def)

lemma trend_dates_sorted:
  "sorted_wrt (<) (map ht_date (generateHistoricalTrendData fmt rs))"
proof -
  have "distinct (map fst (sort_key fst (own_entries (reportsByDate fmt rs))))"
    using distinct_own_entries [OF distinct_reportsByDate, of fmt rs]
    by (simp add: distinct_map)
  moreover have "sorted (map fst (sort_key fst (own_entries (reportsByDate fmt rs))))"
    by (rule sorted_sort_key)
  ultimately show ?thesis
    by (simp add: trend_dates strict_sorted_iff)
qed

lemma sum_filter_day:
  "sum_list (map f (filter (\<lambda>r. rd_summary r \<noteq> None \<and> fmt (rd_lastUpdated r) = k) rs))
   = sum_list (map f (filter (\<lambda>r. fmt (rd_lastUpdated r) = k) rs))"
  if "\<And>r. rd_summary r = None \<Longrightarrow> f r = (0::int)"
  using that by (induction rs) auto

lemma trend_points:
  assumes "p \<in> set (generateHistoricalTrendData fmt rs)"
  shows "\<exists>vs. (ht_date p, vs) \<in> set (reportsByDate fmt rs)
           \<and> ht_totalTests p = sum_list (map total_of vs)
           \<and> ht_passedTests p = sum_list (map passed_of vs)
           \<and> ht_failedTests p = sum_list (map failed_of vs)
           \<and> ht_successRate p = rounded_successRate (ht_totalTests p) (ht_passedTests p)"
proof -
  from assms have ne: "rs \<noteq> []"
    by (auto simp: generateHistoricalTrendData_def)
  with assms obtain k vs where kv: "(k, vs) \<in> set (reportsByDate fmt rs)"
    and p: "p = (case aggregatedResults vs of
                   (tot, pas, fai) \<Rightarrow>
                     \<lparr>ht_date = k, ht_totalTests = tot, ht_passedTests = pas, ht_failedTests = fai,
                      ht_successRate = rounded_successRate tot pas\<rparr>)"
    by (auto simp: generateHistoricalTrendData_def)
  from p have "ht_date p = k"
    by (simp add: aggregatedResults_sums)
  with kv p show ?thesis
    by (intro exI [of _ vs]) (simp add: aggregatedResults_sums)
qed

text \<open>
  C5, as the code has it. The trend deriver groups the records that have a summary by
  the day of their fetch timestamp; a record lacking a summary is left out of the
  grouping (it would contribute zero to the counts, and a day that has only such
  records gets no point). For each day that has a record with a summary it emits
  exactly one point, whose total, passed and failed counts are the sums over the
  records of that day, and the points are ordered ascending by date.
\<close>

theorem generateHistoricalTrendData_by_day:
  "sorted_wrt (<) (map ht_date (generateHistoricalTrendData fmt rs))
   \<and> set (map ht_date (generateHistoricalTrendData fmt rs))
       = {fmt (rd_lastUpdated r) | r. r \<in> set rs \<and> rd_summary r \<noteq> None}
   \<and> (\<forall>p \<in> set (generateHistoricalTrendData fmt rs).
         ht_totalTests p
           = sum_list (map total_of (filter (\<lambda>r. fmt (rd_lastUpdated r) = ht_date p) rs))
         \<and> ht_passedTests p
           = sum_list (map passed_of (filter (\<lambda>r. fmt (rd_lastUpdated r) = ht_date p) rs))
         \<and> ht_failedTests p
           = sum_list (map failed_of (filter (\<lambda>r. fmt (rd_lastUpdated r) = ht_date p) rs)))"
proof (intro conjI ballI)
  show "sorted_wrt (<) (map ht_date (generateHistoricalTrendData fmt rs))"
    by (rule trend_dates_sorted)
next
  have "set (map ht_date (generateHistoricalTrendData fmt rs)) = fst ` set (reportsByDate fmt rs)"
    by (simp add: trend_dates)
  also have "\<dots> = {fmt (rd_lastUpdated r) | r. r \<in> set rs \<and> rd_summary r \<noteq> None}"
  proof (intro set_eqI iffI)
    fix k assume "k \<in> fst ` set (reportsByDate fmt rs)"
    then obtain vs where "(k, vs) \<in> set (reportsByDate fmt rs)" by auto
    then have "filter (\<lambda>r. rd_summary r \<noteq> None \<and> fmt (rd_lastUpdated r) = k) rs \<noteq> []"
      unfolding reportsByDate_entry by blast
    then obtain r where "r \<in> set rs" "rd_summary r \<noteq> None" "fmt (rd_lastUpdated r) = k"
      by (auto simp: filter_empty_conv)
    then show "k \<in> {fmt (rd_lastUpdated r) | r. r \<in> set rs \<and> rd_summary r \<noteq> None}"
      by blast
  next
    fix k assume "k \<in> {fmt (rd_lastUpdated r) | r. r \<in> set rs \<and> rd_summary r \<noteq> None}"
    then have "filter (\<lambda>r. rd_summary r \<noteq> None \<and> fmt (rd_lastUpdated r) = k) rs \<noteq> []"
      by (auto simp: filter_empty_conv)
    then have "(k, filter (\<lambda>r. rd_summary r \<noteq> None \<and> fmt (rd_lastUpdated r) = k) rs)
                 \<in> set (reportsByDate fmt rs)"
      unfolding reportsByDate_entry by blast
    then show "k \<in> fst ` set (reportsByDate fmt rs)"
      by force
  qed
  finally show "set (map ht_date (generateHistoricalTrendData fmt rs))
                  = {fmt (rd_lastUpdated r) | r. r \<in> set rs \<and> rd_summary r \<noteq> None}" .
next
  fix p assume p: "p \<in> set (generateHistoricalTrendData fmt rs)"
  from trend_points [OF p] obtain vs
    where vs: "vs = filter (\<lambda>r. rd_summary r \<noteq> None \<and> fmt (rd_lastUpdated r) = ht_date p) rs"
      and t: "ht_totalTests p = sum_list (map total_of vs)"
      and a: "ht_passedTests p = sum_list (map passed_of vs)"
      and f: "ht_failedTests p = sum_list (map failed_of vs)"
    unfolding reportsByDate_entry by blast
  show "ht_totalTests p
          = sum_list (map total_of (filter (\<lambda>r. fmt (rd_lastUpdated r) = ht_date p) rs))"
    unfolding t vs by (rule sum_filter_day) (simp add: total_of_def)
  show "ht_passedTests p
          = sum_list (map passed_of (filter (\<lambda>r. fmt (rd_lastUpdated r) = ht_date p) rs))"
    unfolding a vs by (rule sum_filter_day) (simp add: passed_of_def)
  show "ht_failedTests p
          = sum_list (map failed_of (filter (\<lambda>r. fmt (rd_lastUpdated r) = ht_date p) rs))"
    unfolding f vs by (rule sum_filter_day) (simp add: failed_of_def)
qed

lemma double_0 [simp]: "double 0 = 0"
  by (simp add: double_def)

lemma floor_half: "\<lfloor>1 / 2 :: rat\<rfloor> = 0"
  by (rule floor_unique) simp_all

lemma rounded_successRate_no_tests: "tot \<le> 0 \<Longrightarrow> rounded_successRate tot pas = 0"
  by (simp add: rounded_successRate_def successRate_def js_mul_def js_div_def Math_round_def
        floor_half)

lemma trend_example:
  "generateHistoricalTrendData format_yyyy_MM_dd trend_reports =
     [\<lparr>ht_date = ''2023-11-13'', ht_totalTests = 10, ht_passedTests = 8, ht_failedTests = 2,
       ht_successRate = 80\<rparr>,
      \<lparr>ht_date = ''2023-11-14'', ht_totalTests = 7, ht_passedTests = 5, ht_failedTests = 2,
       ht_successRate = double (7143 / 100)\<rparr>]"
proof -
  have ne: "trend_reports \<noteq> []"
    by code_simp
  have e: "sort_key fst (own_entries (reportsByDate format_yyyy_MM_dd trend_reports))
             = [(''2023-11-13'', [trend_reports ! 2]), (''2023-11-14'', [trend_reports ! 0])]"
    by code_simp
  have a: "aggregatedResults [trend_reports ! 2] = (10, 8, 2)"
    "aggregatedResults [trend_reports ! 0] = (7, 5, 2)"
    by code_simp+
  have s: "rounded_successRate 10 8 = 80" "rounded_successRate 7 5 = double (7143 / 100)"
    by code_simp+
  show ?thesis
    by (simp add: generateHistoricalTrendData_def ne e a s)
qed

text \<open>
  C7 fails in the code. On a day with total 160 and passed 23 the rate is 14.375
  percent, which rounds to 14.38. The code computes \<open>(23 / 160) * 100\<close> in double
  arithmetic, which is below 14.375; the hundredfold of that is below 1437.5, so
  \<open>Math.round\<close> gives 1437 and the point carries 14.37.
\<close>

theorem successRate_rounded_tie:
  "map (\<lambda>p. (ht_date p, ht_totalTests p, ht_passedTests p))
       (generateHistoricalTrendData format_yyyy_MM_dd tie_day_reports)
     = [(''2023-11-14'', 160, 23)]
   \<and> (of_int 23 / of_int 160 * 100 :: rat) = 14375 / 1000
   \<and> spec_successRatePercent 160 23 = double (1438 / 100)
   \<and> successRate 160 23 < 14375 / 1000
   \<and> Math_round (js_mul (successRate 160 23) 100) = 1437
   \<and> map ht_successRate (generateHistoricalTrendData format_yyyy_MM_dd tie_day_reports)
       = [double (1437 / 100)]
   \<and> double (1437 / 100) < double (1438 / 100)"
proof -
  have ne: "tie_day_reports \<noteq> []"
    by code_simp
  have e: "sort_key fst (own_entries (reportsByDate format_yyyy_MM_dd tie_day_reports))
             = [(''2023-11-14'', tie_day_reports)]"
    by code_simp
  have a: "aggregatedResults tie_day_reports = (160, 23, 137)"
    by code_simp
  have s: "rounded_successRate 160 23 = double (1437 / 100)"
    by code_simp
  have g: "generateHistoricalTrendData format_yyyy_MM_dd tie_day_reports
             = [\<lparr>ht_date = ''2023-11-14'', ht_totalTests = 160, ht_passedTests = 23,
                  ht_failedTests = 137, ht_successRate = double (1437 / 100)\<rparr>]"
    by (simp add: generateHistoricalTrendData_def ne e a s)
  have "map (\<lambda>p. (ht_date p, ht_totalTests p, ht_passedTests p))
          (generateHistoricalTrendData format_yyyy_MM_dd tie_day_reports)
        = [(''2023-11-14'', 160, 23)]"
    by (simp add: g)
  moreover have "(of_int 23 / of_int 160 * 100 :: rat) = 14375 / 1000"
    by simp
  moreover have "spec_successRatePercent 160 23 = double (1438 / 100)"
    by code_simp
  moreover have "successRate 160 23 < 14375 / 1000"
    by code_simp
  moreover have "Math_round (js_mul (successRate 160 23) 100) = 1437"
    by code_simp
  moreover have "map ht_successRate (generateHistoricalTrendData format_yyyy_MM_dd tie_day_reports)
                   = [double (1437 / 100)]"
    by (simp add: g)
  moreover have "double (1437 / 100) < double (1438 / 100)"
    by code_simp
  ultimately show ?thesis
    by (intro conjI)
qed

text \<open>A day with total 7 and passed 5 yields 71.43, and a day without tests yields 0.\<close>

lemma successRate_example:
  "rounded_successRate 7 5 = double (7143 / 100) \<and> spec_successRatePercent 7 5 = double (7143 / 100)
   \<and> rounded_successRate 0 0 = 0 \<and> spec_successRatePercent 0 0 = 0"
  by code_simp

text \<open>
  C5 as the specification states it fails: a single record of 14 November 2023 that
  lacks a summary does not take part in the grouping, and that day gets no point.
\<close>

theorem generateHistoricalTrendData_counterexample:
  "format_yyyy_MM_dd
     (rd_lastUpdated (mk_report ''api-tests'' 7 1700003000000 None [mk_result ''login'' failed]))
     = ''2023-11-14''
   \<and> generateHistoricalTrendData format_yyyy_MM_dd
       [mk_report ''api-tests'' 7 1700003000000 None [mk_result ''login'' failed]] = []"
  by code_simp

text \<open>The trend of the three example reports.\<close>

theorem generateHistoricalTrendData_by_day_witness:
  "\<lparr>ht_date = ''2023-11-14'', ht_totalTests = 7, ht_passedTests = 5, ht_failedTests = 2,
     ht_successRate = double (7143 / 100)\<rparr>
     \<in> set (generateHistoricalTrendData format_yyyy_MM_dd trend_reports)
   \<and> map ht_date (generateHistoricalTrendData format_yyyy_MM_dd trend_reports)
       = [''2023-11-13'', ''2023-11-14'']
   \<and> sorted_wrt (<) [''2023-11-13'', ''2023-11-14'']
   \<and> sum_list (map total_of
        (filter (\<lambda>r. format_yyyy_MM_dd (rd_lastUpdated r) = ''2023-11-14'') trend_reports)) = 7"
proof -
  have m: "\<lparr>ht_date = ''2023-11-14'', ht_totalTests = 7, ht_passedTests = 5, ht_failedTests = 2,
             ht_successRate = double (7143 / 100)\<rparr>
           \<in> set (generateHistoricalTrendData format_yyyy_MM_dd trend_reports)"
    by (simp add: trend_example)
  have d: "map ht_date (generateHistoricalTrendData format_yyyy_MM_dd trend_reports)
             = [''2023-11-13'', ''2023-11-14'']"
    by (simp add: trend_example)
  from generateHistoricalTrendData_by_day [of format_yyyy_MM_dd trend_reports]
  have s: "sorted_wrt (<) (map ht_date (generateHistoricalTrendData format_yyyy_MM_dd trend_reports))"
    and b: "\<And>p. p \<in> set (generateHistoricalTrendData format_yyyy_MM_dd trend_reports) \<Longrightarrow>
              ht_totalTests p
                = sum_list (map total_of
                    (filter (\<lambda>r. format_yyyy_MM_dd (rd_lastUpdated r) = ht_date p) trend_reports))"
    by blast+
  from b [OF m] s m d show ?thesis
    by simp
qed


section \<open>The flakiness deriver\<close>

lemma map_of_update_entry:
  "map_of (update_entry k f obj) k' = (if k' = k then map_option f (map_of obj k) else map_of obj k')"
  by (induction obj) (auto simp: update_entry_def)

lemma keys_update_entry [simp]: "map fst (update_entry k f obj) = map fst obj"
  by (induction obj) (auto simp: update_entry_def)

lemma set_update_entry:
  "set (update_entry k f obj) = (\<lambda>(k', v). if k' = k then (k', f v) else (k', v)) ` set obj"
  by (simp add: update_entry_def)

text \<open>One step of the \<open>reduce\<close>: the entry of a name changes only at a run of that name,
  and then only if the object has the entry already or the name is not inherited.\<close>

lemma map_of_testStats_step:
  "map_of (snd (testStats_step (proto, acc) t)) n =
     (if n = tr_testName t \<and> (map_of acc n \<noteq> None \<or> \<not> inherited proto n)
      then Some (count_run t (case map_of acc n of None \<Rightarrow> new_TestStats t | Some s \<Rightarrow> s))
      else map_of acc n)"
  by (auto simp: testStats_step_def map_of_update_entry map_add_def split: option.split)

lemma keys_testStats_step:
  "map fst (snd (testStats_step (proto, acc) t)) =
     (if tr_testName t \<in> set (map fst acc) \<or> inherited proto (tr_testName t)
      then map fst acc else map fst acc @ [tr_testName t])"
  by (auto simp: testStats_step_def map_of_eq_None_iff)

lemma distinct_testStats_step:
  "distinct (map fst acc) \<Longrightarrow> distinct (map fst (snd (testStats_step (proto, acc) t)))"
  by (simp add: keys_testStats_step)

text \<open>What is inherited stays inherited, and a run of a name that is not inherited
  leaves \<open>Object.prototype\<close> as it is.\<close>

lemma inherited_testStats_step:
  "inherited proto n \<Longrightarrow> inherited (fst (testStats_step (proto, acc) t)) n"
  by (auto simp: testStats_step_def write_inherited_def inherited_def)

lemma prototype_testStats_step:
  "\<not> inherited proto (tr_testName t) \<Longrightarrow> fst (testStats_step (proto, acc) t) = proto"
  by (simp add: testStats_step_def)

lemma count_run_fields [simp]:
  "ts_testName (count_run t s) = ts_testName s"
  "ts_jobName (count_run t s) = ts_jobName s"
  "ts_totalRuns (count_run t s) = ts_totalRuns s + 1"
  "ts_failures (count_run t s) = ts_failures s + (if is_failure (tr_status t) then 1 else 0)"
  by (simp_all add: count_run_def Let_def is_failure_def)

lemma new_TestStats_fields [simp]:
  "ts_testName (new_TestStats t) = tr_testName t"
  "ts_jobName (new_TestStats t) = tr_jobName t"
  "ts_totalRuns (new_TestStats t) = 0"
  "ts_failures (new_TestStats t) = 0"
  "ts_lastFailure (new_TestStats t) = None"
  by (simp_all add: new_TestStats_def)

text \<open>An entry that exists counts every later run of its name, whatever has become
  inherited in the meantime.\<close>

lemma testStats_fold_present:
  assumes "map_of acc n = Some s0"
  shows "\<exists>s. map_of (snd (foldl testStats_step (proto, acc) ts)) n = Some s
           \<and> ts_testName s = ts_testName s0 \<and> ts_jobName s = ts_jobName s0
           \<and> ts_totalRuns s = ts_totalRuns s0 + length (filter (\<lambda>t. tr_testName t = n) ts)
           \<and> ts_failures s = ts_failures s0
               + length (filter (\<lambda>t. tr_testName t = n \<and> is_failure (tr_status t)) ts)"
  using assms
proof (induction ts arbitrary: proto acc s0)
  case Nil
  then show ?case by simp
next
  case (Cons t ts)
  obtain proto' acc' where st: "testStats_step (proto, acc) t = (proto', acc')"
    by (cases "testStats_step (proto, acc) t")
  show ?case
  proof (cases "tr_testName t = n")
    case True
    with Cons.prems st map_of_testStats_step [of proto acc t n]
    have "map_of acc' n = Some (count_run t s0)"
      by simp
    from Cons.IH [OF this, of proto'] True st show ?thesis
      by auto
  next
    case False
    with Cons.prems st map_of_testStats_step [of proto acc t n]
    have "map_of acc' n = Some s0"
      by simp
    from Cons.IH [OF this, of proto'] False st show ?thesis
      by auto
  qed
qed

text \<open>A name without an entry gets none when it has no run, or when it is inherited.\<close>

lemma testStats_fold_absent_None:
  assumes "map_of acc n = None"
    and "inherited proto n \<or> filter (\<lambda>t. tr_testName t = n) ts = []"
  shows "map_of (snd (foldl testStats_step (proto, acc) ts)) n = None"
  using assms
proof (induction ts arbitrary: proto acc)
  case Nil
  then show ?case by simp
next
  case (Cons t ts)
  obtain proto' acc' where st: "testStats_step (proto, acc) t = (proto', acc')"
    by (cases "testStats_step (proto, acc) t")
  from Cons.prems st map_of_testStats_step [of proto acc t n]
  have "map_of acc' n = None"
    by (auto split: if_splits)
  moreover from Cons.prems(2) st inherited_testStats_step [of proto n acc t]
  have "inherited proto' n \<or> filter (\<lambda>t. tr_testName t = n) ts = []"
    by (auto split: if_splits)
  ultimately show ?case
    using Cons.IH [of acc' proto'] st by simp
qed

text \<open>An entry is created at the first run of its name: it carries the job name of that
  run and counts all the runs of the name.\<close>

lemma testStats_fold_absent_Some:
  assumes "map_of acc n = None"
    and "map_of (snd (foldl testStats_step (proto, acc) ts)) n = Some s"
  shows "\<not> inherited proto n
         \<and> filter (\<lambda>t. tr_testName t = n) ts \<noteq> []
         \<and> ts_testName s = n
         \<and> ts_jobName s = tr_jobName (hd (filter (\<lambda>t. tr_testName t = n) ts))
         \<and> ts_totalRuns s = length (filter (\<lambda>t. tr_testName t = n) ts)
         \<and> ts_failures s
             = length (filter (\<lambda>t. tr_testName t = n \<and> is_failure (tr_status t)) ts)"
  using assms
proof (induction ts arbitrary: proto acc)
  case Nil
  then show ?case by simp
next
  case (Cons t ts)
  obtain proto' acc' where st: "testStats_step (proto, acc) t = (proto', acc')"
    by (cases "testStats_step (proto, acc) t")
  from testStats_fold_absent_None [OF Cons.prems(1), of proto "t # ts"] Cons.prems(2)
  have ni: "\<not> inherited proto n"
    by auto
  from Cons.prems(2) st
  have fin: "map_of (snd (foldl testStats_step (proto', acc') ts)) n = Some s"
    by simp
  show ?case
  proof (cases "tr_testName t = n")
    case True
    with Cons.prems(1) ni st map_of_testStats_step [of proto acc t n]
    have "map_of acc' n = Some (count_run t (new_TestStats t))"
      by simp
    from testStats_fold_present [OF this, of proto' ts] fin True ni show ?thesis
      by auto
  next
    case False
    with Cons.prems(1) st map_of_testStats_step [of proto acc t n]
    have "map_of acc' n = None"
      by simp
    from Cons.IH [OF this fin] False ni show ?thesis
      by simp
  qed
qed

text \<open>When no name of a run is inherited, \<open>Object.prototype\<close> stays as it is, every name
  that has a run gets an entry, and the entries are in the order of first appearance.\<close>

lemma prototype_testStats_fold:
  assumes "\<forall>t \<in> set ts. \<not> inherited proto (tr_testName t)"
  shows "fst (foldl testStats_step (proto, acc) ts) = proto"
  using assms
proof (induction ts arbitrary: acc)
  case Nil
  then show ?case by simp
next
  case (Cons t ts)
  from Cons.prems prototype_testStats_step [of proto t acc]
  have "testStats_step (proto, acc) t = (proto, snd (testStats_step (proto, acc) t))"
    by (simp add: prod_eq_iff)
  with Cons.IH [of "snd (testStats_step (proto, acc) t)"] Cons.prems show ?case
    by simp
qed



lemma distinct_testStats_fold:
  "distinct (map fst acc) \<Longrightarrow> distinct (map fst (snd (foldl testStats_step (proto, acc) ts)))"
proof (induction ts arbitrary: proto acc)
  case Nil
  then show ?case by simp
next
  case (Cons t ts)
  obtain proto' acc' where st: "testStats_step (proto, acc) t = (proto', acc')"
    by (cases "testStats_step (proto, acc) t")
  with distinct_testStats_step [OF Cons.prems, of proto t] have "distinct (map fst acc')"
    by simp
  from Cons.IH [OF this, of proto'] st show ?case
    by simp
qed

lemma distinct_testStats: "distinct (map fst (testStats proto rs))"
  by (simp add: testStats_def testStats_reduce_def distinct_testStats_fold)

lemma length_runs_of:
  "length (filter (\<lambda>t. tr_testName t = n) (testResults rs)) = length (runs_of rs n)"
  by (induction rs) (simp_all add: testResults_def runs_of_def filter_map o_def)

lemma length_failures_of:
  "length (filter (\<lambda>t. tr_testName t = n \<and> is_failure (tr_status t)) (testResults rs))
     = length (failures_of rs n)"
  by (induction rs) (simp_all add: testResults_def failures_of_def runs_of_def filter_map o_def conj_commute)

lemma runs_of_empty_iff:
  "filter (\<lambda>t. tr_testName t = n) (testResults rs) = [] \<longleftrightarrow> runs_of rs n = []"
  using length_runs_of [of n rs] by (metis length_0_conv)

lemma map_tr_testName_testResults: "map tr_testName (testResults rs) = test_names rs"
  by (induction rs) (simp_all add: testResults_def test_names_def o_def)

lemma first_job:
  assumes "filter (\<lambda>t. tr_testName t = n) (testResults rs) \<noteq> []"
  shows "\<exists>r. find (\<lambda>r. list_ex (\<lambda>x. ar_name x = n) (rd_results r)) rs = Some r
           \<and> tr_jobName (hd (filter (\<lambda>t. tr_testName t = n) (testResults rs)))
               = bc_jobName (rd_buildConfig r)"
  using assms
proof (induction rs)
  case Nil
  then show ?case by (simp add: testResults_def)
next
  case (Cons r rs)
  have split: "filter (\<lambda>t. tr_testName t = n) (testResults (r # rs))
     = map (\<lambda>result. \<lparr>tr_testName = ar_name result,
                       tr_jobName = bc_jobName (rd_buildConfig r),
                       tr_status = ar_status result,
                       tr_timestamp = rd_lastUpdated r\<rparr>)
           (filter (\<lambda>x. ar_name x = n) (rd_results r))
       @ filter (\<lambda>t. tr_testName t = n) (testResults rs)"
    by (simp add: testResults_def filter_map o_def)
  show ?case
  proof (cases "list_ex (\<lambda>x. ar_name x = n) (rd_results r)")
    case True
    then have ne: "filter (\<lambda>x. ar_name x = n) (rd_results r) \<noteq> []"
      by (auto simp: list_ex_iff filter_empty_conv)
    then show ?thesis
      using True by (simp add: split hd_append hd_map)
  next
    case False
    then have e: "filter (\<lambda>x. ar_name x = n) (rd_results r) = []"
      by (auto simp: list_ex_iff filter_empty_conv)
    with Cons.prems have "filter (\<lambda>t. tr_testName t = n) (testResults rs) \<noteq> []"
      by (simp add: split)
    from Cons.IH [OF this] False e show ?thesis
      by (simp add: split)
  qed
qed

lemma testStats_entry:
  assumes "(k, s) \<in> set (testStats proto rs)"
  shows "\<not> inherited proto k \<and> runs_of rs k \<noteq> []
         \<and> ts_testName s = k
         \<and> ts_jobName s = tr_jobName (hd (filter (\<lambda>t. tr_testName t = k) (testResults rs)))
         \<and> ts_totalRuns s = length (runs_of rs k)
         \<and> ts_failures s = length (failures_of rs k)"
proof -
  from assms distinct_testStats have m: "map_of (testStats proto rs) k = Some s"
    by simp
  have a: "map_of [] k = (None :: TestStats option)" by simp
  from testStats_fold_absent_Some [OF a, of proto "testResults rs" s] m show ?thesis
    by (simp add: testStats_def testStats_reduce_def length_runs_of length_failures_of
          runs_of_empty_iff)
qed


text \<open>A call whose test names are not inherited leaves \<open>Object.prototype\<close> as it is.\<close>

lemma generateFlakyTestsData_prototype_same:
  assumes "\<forall>n \<in> set (test_names rs). \<not> inherited proto n"
  shows "generateFlakyTestsData_prototype proto rs = proto"
proof -
  from assms have "\<forall>t \<in> set (testResults rs). \<not> inherited proto (tr_testName t)"
    unfolding map_tr_testName_testResults [symmetric] by simp
  then show ?thesis
    by (simp add: generateFlakyTestsData_prototype_def testStats_reduce_def
          prototype_testStats_fold)
qed

lemma failureRate_entry:
  assumes "(k, s) \<in> set (testStats proto rs)"
  shows "js_mul (js_div (of_nat (ts_failures s)) (of_nat (ts_totalRuns s))) 100 = failure_rate rs k"
  using testStats_entry [OF assms] by (simp add: failure_rate_def)

lemma flakyCandidates_mem:
  "e \<in> set (flakyCandidates proto now rs) \<longleftrightarrow>
     (\<exists>k s. (k, s) \<in> set (testStats proto rs) \<and> failures_of rs k \<noteq> []
        \<and> e = \<lparr>ft_testName = k, ft_jobName = ts_jobName s, ft_failureRate = failure_rate rs k,
                ft_totalRuns = length (runs_of rs k),
                ft_lastFailure = (case ts_lastFailure s of None \<Rightarrow> now | Some d \<Rightarrow> d)\<rparr>)"
  (is "?L \<longleftrightarrow> ?R")
proof
  assume ?L
  then obtain k s where ks: "(k, s) \<in> set (testStats proto rs)" and f: "ts_failures s > 0"
    and e: "e = \<lparr>ft_testName = ts_testName s, ft_jobName = ts_jobName s,
                 ft_failureRate =
                   js_mul (js_div (of_nat (ts_failures s)) (of_nat (ts_totalRuns s))) 100,
                 ft_totalRuns = ts_totalRuns s,
                 ft_lastFailure = (case ts_lastFailure s of None \<Rightarrow> now | Some d \<Rightarrow> d)\<rparr>"
    by (auto simp: flakyCandidates_def)
  from testStats_entry [OF ks] failureRate_entry [OF ks] f e ks show ?R
    by (intro exI [of _ k] exI [of _ s]) auto
next
  assume ?R
  then obtain k s where ks: "(k, s) \<in> set (testStats proto rs)" and f: "failures_of rs k \<noteq> []"
    and e: "e = \<lparr>ft_testName = k, ft_jobName = ts_jobName s, ft_failureRate = failure_rate rs k,
                 ft_totalRuns = length (runs_of rs k),
                 ft_lastFailure = (case ts_lastFailure s of None \<Rightarrow> now | Some d \<Rightarrow> d)\<rparr>"
    by blast
  from testStats_entry [OF ks] failureRate_entry [OF ks] f
  have "ts_failures s > 0"
    and "e = \<lparr>ft_testName = ts_testName s, ft_jobName = ts_jobName s,
              ft_failureRate =
                js_mul (js_div (of_nat (ts_failures s)) (of_nat (ts_totalRuns s))) 100,
              ft_totalRuns = ts_totalRuns s,
              ft_lastFailure = (case ts_lastFailure s of None \<Rightarrow> now | Some d \<Rightarrow> d)\<rparr>"
    by (simp_all add: e)
  with ks show ?L
    unfolding flakyCandidates_def by force
qed


lemma map_fst_insort_key:
  "map fst (insort_key (\<lambda>kv. g (fst kv)) x ys) = insort_key g (fst x) (map fst ys)"
  by (induction ys) simp_all

lemma map_fst_sort_key:
  "map fst (sort_key (\<lambda>kv. g (fst kv)) xs) = sort_key g (map fst xs)"
  by (induction xs) (simp_all add: map_fst_insort_key)

lemma keys_own_entries: "map fst (own_entries obj) = key_order (map fst obj)"
  by (simp add: own_entries_def key_order_def map_fst_sort_key filter_map o_def)

lemma map_filter_values:
  assumes "\<forall>(k, s) \<in> set E. tn s = k \<and> (P s \<longleftrightarrow> Q k)"
  shows "map tn (filter P (map snd E)) = filter Q (map fst E)"
  using assms by (induction E) auto

lemma flakyCandidates_keys:
  "map ft_testName (flakyCandidates proto now rs) =
     filter (\<lambda>n. failures_of rs n \<noteq> []) (key_order (map fst (testStats proto rs)))"
proof -
  have "map ft_testName (flakyCandidates proto now rs)
        = map ts_testName (filter (\<lambda>s. ts_failures s > 0)
                             (map snd (own_entries (testStats proto rs))))"
    by (simp add: flakyCandidates_def o_def)
  also have "\<dots> = filter (\<lambda>n. failures_of rs n \<noteq> []) (map fst (own_entries (testStats proto rs)))"
  proof (rule map_filter_values, clarify)
    fix k s assume "(k, s) \<in> set (own_entries (testStats proto rs))"
    then have "(k, s) \<in> set (testStats proto rs)"
      by (simp add: own_entries_def) blast
    from testStats_entry [OF this]
    show "ts_testName s = k \<and> (0 < ts_failures s \<longleftrightarrow> failures_of rs k \<noteq> [])"
      by simp
  qed
  finally show ?thesis
    by (simp add: keys_own_entries)
qed



lemma generateFlakyTestsData_eq:
  "generateFlakyTestsData proto now rs =
     take 10 (sort_key (\<lambda>t. - ft_failureRate t) (flakyCandidates proto now rs))"
  by (cases "rs = []")
     (simp_all add: generateFlakyTestsData_def flakyCandidates_def testStats_def
        testStats_reduce_def testResults_def own_entries_def)

lemma set_generateFlakyTestsData:
  "set (generateFlakyTestsData proto now rs) \<subseteq> set (flakyCandidates proto now rs)"
  using set_take_subset [of 10 "sort_key (\<lambda>t. - ft_failureRate t) (flakyCandidates proto now rs)"]
  by (simp add: generateFlakyTestsData_eq)

lemma distinct_flakyCandidates_names:
  "distinct (map ft_testName (flakyCandidates proto now rs))"
proof -
  have "distinct (map fst (own_entries (testStats proto rs)))"
    unfolding keys_own_entries key_order_def using distinct_testStats [of proto rs]
    by (auto simp: distinct_map inj_on_def)
  then have "distinct (filter (\<lambda>n. failures_of rs n \<noteq> [])
                         (map fst (own_entries (testStats proto rs))))"
    by (rule distinct_filter)
  then show ?thesis
    by (simp add: flakyCandidates_keys keys_own_entries)
qed

lemma distinct_generateFlakyTestsData_names:
  "distinct (map ft_testName (generateFlakyTestsData proto now rs))"
proof -
  from distinct_flakyCandidates_names [of proto now rs]
  have "distinct (flakyCandidates proto now rs)"
    "inj_on ft_testName (set (flakyCandidates proto now rs))"
    by (simp_all add: distinct_map)
  then have "distinct (map ft_testName (sort_key (\<lambda>t. - ft_failureRate t)
                                          (flakyCandidates proto now rs)))"
    by (simp add: distinct_map)
  then show ?thesis
    unfolding generateFlakyTestsData_eq take_map [symmetric] by (rule distinct_take)
qed







text \<open>
  C10. The flakiness deriver lists a test name at most once, whatever the jobs of the
  records it occurs in. The job name of the entry is the job name of the first record,
  in input order, that has an outcome of that name; the total and the failures are
  counted over the records of all jobs.
\<close>

theorem flaky_jobName_first_record:
  "distinct (map ft_testName (generateFlakyTestsData proto now rs))
   \<and> (\<forall>e \<in> set (generateFlakyTestsData proto now rs).
         (\<exists>r. find (\<lambda>r. list_ex (\<lambda>x. ar_name x = ft_testName e) (rd_results r)) rs = Some r
              \<and> ft_jobName e = bc_jobName (rd_buildConfig r))
         \<and> ft_totalRuns e
             = sum_list (map (\<lambda>r. length (filter (\<lambda>x. ar_name x = ft_testName e) (rd_results r))) rs)
         \<and> ft_failureRate e
             = js_mul (js_div (of_nat (sum_list (map (\<lambda>r. length (filter (\<lambda>x. ar_name x = ft_testName e
                                                                           \<and> is_failure (ar_status x))
                                                                     (rd_results r))) rs)))
                              (of_nat (ft_totalRuns e))) 100)"
proof (intro conjI ballI)
  show "distinct (map ft_testName (generateFlakyTestsData proto now rs))"
    by (rule distinct_generateFlakyTestsData_names)
next
  fix e assume "e \<in> set (generateFlakyTestsData proto now rs)"
  with set_generateFlakyTestsData have "e \<in> set (flakyCandidates proto now rs)"
    by blast
  then obtain k s where ks: "(k, s) \<in> set (testStats proto rs)"
    and e: "ft_testName e = k" "ft_totalRuns e = length (runs_of rs k)"
           "ft_failureRate e = failure_rate rs k" "ft_jobName e = ts_jobName s"
    unfolding flakyCandidates_mem by auto
  from testStats_entry [OF ks]
  have j: "ts_jobName s = tr_jobName (hd (filter (\<lambda>t. tr_testName t = k) (testResults rs)))"
    and ne: "filter (\<lambda>t. tr_testName t = k) (testResults rs) \<noteq> []"
    by (simp_all add: runs_of_empty_iff)
  from first_job [OF ne] j e
  show "\<exists>r. find (\<lambda>r. list_ex (\<lambda>x. ar_name x = ft_testName e) (rd_results r)) rs = Some r
            \<and> ft_jobName e = bc_jobName (rd_buildConfig r)"
    by simp
  have r: "length (runs_of rs k)
             = sum_list (map (\<lambda>r. length (filter (\<lambda>x. ar_name x = k) (rd_results r))) rs)"
    by (simp add: runs_of_def length_concat o_def)
  have f: "length (failures_of rs k)
             = sum_list (map (\<lambda>r. length (filter (\<lambda>x. ar_name x = k \<and> is_failure (ar_status x))
                                              (rd_results r))) rs)"
    by (simp add: failures_of_def runs_of_def length_concat o_def filter_concat conj_commute)
  show "ft_totalRuns e
          = sum_list (map (\<lambda>r. length (filter (\<lambda>x. ar_name x = ft_testName e) (rd_results r))) rs)"
    using e r by simp
  show "ft_failureRate e
          = js_mul (js_div (of_nat (sum_list (map (\<lambda>r. length (filter (\<lambda>x. ar_name x = ft_testName e
                                                                        \<and> is_failure (ar_status x))
                                                                  (rd_results r))) rs)))
                           (of_nat (ft_totalRuns e))) 100"
    using e f by (simp add: failure_rate_def)
qed

lemma shared_example:
  "generateFlakyTestsData pristine 1700000500000 shared_reports =
     [\<lparr>ft_testName = ''login'', ft_jobName = ''ui-tests'',
       ft_failureRate = js_mul (js_div 2 3) 100,
       ft_totalRuns = 3, ft_lastFailure = 1700000060000\<rparr>]"
  by code_simp

text \<open>The test \<open>login\<close> runs once in \<open>ui-tests\<close> and twice in \<open>api-tests\<close>: one entry,
  with the job name \<open>ui-tests\<close> and three runs.\<close>

theorem flaky_jobName_first_record_witness:
  "\<lparr>ft_testName = ''login'', ft_jobName = ''ui-tests'', ft_failureRate = js_mul (js_div 2 3) 100,
     ft_totalRuns = 3, ft_lastFailure = 1700000060000\<rparr>
     \<in> set (generateFlakyTestsData pristine 1700000500000 shared_reports)
   \<and> map (\<lambda>r. bc_jobName (rd_buildConfig r)) shared_reports = [''ui-tests'', ''api-tests'']
   \<and> find (\<lambda>r. list_ex (\<lambda>x. ar_name x = ''login'') (rd_results r)) shared_reports
       = Some (shared_reports ! 0)
   \<and> (3::nat) = sum_list (map (\<lambda>r. length (filter (\<lambda>x. ar_name x = ''login'') (rd_results r)))
                            shared_reports)"
proof -
  have m: "\<lparr>ft_testName = ''login'', ft_jobName = ''ui-tests'',
             ft_failureRate = js_mul (js_div 2 3) 100,
             ft_totalRuns = 3, ft_lastFailure = 1700000060000\<rparr>
           \<in> set (generateFlakyTestsData pristine 1700000500000 shared_reports)"
    by (simp add: shared_example)
  from flaky_jobName_first_record [of pristine 1700000500000 shared_reports]
  have "\<forall>e \<in> set (generateFlakyTestsData pristine 1700000500000 shared_reports).
          ft_totalRuns e
            = sum_list (map (\<lambda>r. length (filter (\<lambda>x. ar_name x = ft_testName e) (rd_results r)))
                            shared_reports)"
    by blast
  from this [THEN bspec, OF m, unfolded FlakyTest.simps]
  have t: "(3::nat) = sum_list (map (\<lambda>r. length (filter (\<lambda>x. ar_name x = ''login'') (rd_results r)))
                                 shared_reports)"
    by blast
  have j: "map (\<lambda>r. bc_jobName (rd_buildConfig r)) shared_reports = [''ui-tests'', ''api-tests'']"
    by code_simp
  have f: "find (\<lambda>r. list_ex (\<lambda>x. ar_name x = ''login'') (rd_results r)) shared_reports
             = Some (shared_reports ! 0)"
    by code_simp
  from m t j f show ?thesis
    by blast
qed

text \<open>Every listed test has a last failure, so the clock that the deriver may read in
  \<open>test.lastFailure || new Date()\<close> is never used.\<close>

lemma count_run_lastFailure:
  "(0 < ts_failures s \<longrightarrow> ts_lastFailure s \<noteq> None) \<Longrightarrow>
   0 < ts_failures (count_run t s) \<longrightarrow> ts_lastFailure (count_run t s) \<noteq> None"
  by (auto simp: count_run_def Let_def split: option.splits)

lemma testStats_step_lastFailure:
  assumes "\<forall>(k, s) \<in> set acc. 0 < ts_failures s \<longrightarrow> ts_lastFailure s \<noteq> None"
  shows "\<forall>(k, s) \<in> set (snd (testStats_step (proto, acc) t)).
           0 < ts_failures s \<longrightarrow> ts_lastFailure s \<noteq> None"
proof -
  have "\<forall>(k, s) \<in> set (acc @ [(tr_testName t, new_TestStats t)]).
          0 < ts_failures s \<longrightarrow> ts_lastFailure s \<noteq> None"
    using assms by auto
  then show ?thesis
    using assms count_run_lastFailure
    by (auto simp: testStats_step_def set_update_entry split: if_splits)
qed

lemma testStats_fold_lastFailure:
  "\<forall>(k, s) \<in> set acc. 0 < ts_failures s \<longrightarrow> ts_lastFailure s \<noteq> None \<Longrightarrow>
   \<forall>(k, s) \<in> set (snd (foldl testStats_step (proto, acc) ts)).
     0 < ts_failures s \<longrightarrow> ts_lastFailure s \<noteq> None"
proof (induction ts arbitrary: proto acc)
  case Nil
  then show ?case by simp
next
  case (Cons t ts)
  obtain proto' acc' where st: "testStats_step (proto, acc) t = (proto', acc')"
    by (cases "testStats_step (proto, acc) t")
  with testStats_step_lastFailure [OF Cons.prems, of proto t]
  have "\<forall>(k, s) \<in> set acc'. 0 < ts_failures s \<longrightarrow> ts_lastFailure s \<noteq> None"
    by simp
  from Cons.IH [OF this, of proto'] st show ?case
    by simp
qed

lemma testStats_lastFailure:
  "(k, s) \<in> set (testStats proto rs) \<Longrightarrow> 0 < ts_failures s \<Longrightarrow> ts_lastFailure s \<noteq> None"
  using testStats_fold_lastFailure [of "[]" proto "testResults rs"]
  by (auto simp: testStats_def testStats_reduce_def)

lemma flakyCandidates_clock: "flakyCandidates proto now rs = flakyCandidates proto now' rs"
proof -
  have "\<forall>s \<in> set (filter (\<lambda>test. 0 < ts_failures test)
                     (map snd (own_entries (testStats proto rs)))).
          ts_lastFailure s \<noteq> None"
    using testStats_lastFailure [of _ _ proto rs] by (auto simp: own_entries_def)
  then show ?thesis
    unfolding flakyCandidates_def by (intro map_cong refl) auto
qed

lemma generateFlakyTestsData_clock:
  "generateFlakyTestsData proto now rs = generateFlakyTestsData proto now' rs"
  by (simp add: generateFlakyTestsData_eq flakyCandidates_clock [of proto now rs now'])

text \<open>
  C8 fails in the code, for the flakiness deriver. In a build in which a test named
  \<open>lastFailure\<close> and a test named \<open>__proto__\<close> fail, the first call lists the test
  \<open>lastFailure\<close>. For the run of \<open>__proto__\<close> it reads \<open>acc['__proto__']\<close>, which is
  \<open>Object.prototype\<close>, and stores the timestamp in its field \<open>lastFailure\<close>: from then
  on every object inherits a truthy \<open>lastFailure\<close>. In the second call on the same
  records \<open>acc['lastFailure']\<close> is truthy at once, no entry is created, and the list
  is empty. The same happens between two renders of the component.
\<close>

theorem generateFlakyTestsData_second_call:
  "generateFlakyTestsData pristine 1700000500000 proto_reports
     = [\<lparr>ft_testName = ''lastFailure'', ft_jobName = ''ui-tests'', ft_failureRate = 100,
         ft_totalRuns = 1, ft_lastFailure = 1700000000000\<rparr>]
   \<and> generateFlakyTestsData_prototype pristine proto_reports = [''lastFailure'']
   \<and> generateFlakyTestsData (generateFlakyTestsData_prototype pristine proto_reports)
        1700000500000 proto_reports = []
   \<and> fst (snd (fst (Analysis_derived pristine format_yyyy_MM_dd 1700000500000 proto_reports)))
       = [\<lparr>ft_testName = ''lastFailure'', ft_jobName = ''ui-tests'', ft_failureRate = 100,
           ft_totalRuns = 1, ft_lastFailure = 1700000000000\<rparr>]
   \<and> fst (snd (fst (Analysis_derived
                      (snd (Analysis_derived pristine format_yyyy_MM_dd 1700000500000
                              proto_reports))
                      format_yyyy_MM_dd 1700000500000 proto_reports)))
       = []"
proof -
  have a: "generateFlakyTestsData pristine 1700000500000 proto_reports
             = [\<lparr>ft_testName = ''lastFailure'', ft_jobName = ''ui-tests'', ft_failureRate = 100,
                 ft_totalRuns = 1, ft_lastFailure = 1700000000000\<rparr>]"
    by code_simp
  have b: "generateFlakyTestsData_prototype pristine proto_reports = [''lastFailure'']"
    by code_simp
  have c: "generateFlakyTestsData [''lastFailure''] 1700000500000 proto_reports = []"
    by code_simp
  show ?thesis
    by (simp add: Analysis_derived_def Let_def a b c)
qed

text \<open>A failing test whose name is an inherited member gets no entry; and when the run of
  \<open>__proto__\<close> comes first, the test \<open>lastFailure\<close> is not listed in the first call
  either.\<close>

lemma inherited_name_not_listed:
  "generateFlakyTestsData pristine 1700000500000
     [mk_report ''ui-tests'' 1 1700000000000 None [mk_result ''constructor'' failed]] = []
   \<and> generateFlakyTestsData pristine 1700000500000
       [mk_report ''ui-tests'' 1 1700000000000 None
          [mk_result ''__proto__'' failed, mk_result ''lastFailure'' failed]] = []"
  by code_simp

section \<open>The environment matrix\<close>

text \<open>Reports without an environment are grouped under \<open>default\<close>; an environment named
  like an inherited member makes the deriver throw.\<close>

lemma generateEnvironmentMatrixData_example:
  "generateEnvironmentMatrixData pristine trend_reports
     = Inr [\<lparr>em_environment = ''default'', em_totalTests = 17, em_passedTests = 13,
              em_failedTests = 4, em_successRate = double (7647 / 100)\<rparr>]"
proof -
  have ne: "trend_reports \<noteq> []"
    by code_simp
  have e: "reportsByEnvironment pristine trend_reports = Inr [(''default'', trend_reports)]"
    by code_simp
  have o: "own_entries [(''default'', trend_reports)] = [(''default'', trend_reports)]"
    by code_simp
  have a: "aggregatedResults trend_reports = (17, 13, 4)"
    by code_simp
  have s: "rounded_successRate 17 13 = double (7647 / 100)"
    by code_simp
  show ?thesis
    by (simp add: generateEnvironmentMatrixData_def ne e o a s)
qed

lemma generateEnvironmentMatrixData_inherited:
  "generateEnvironmentMatrixData pristine
     [(mk_report ''ui-tests'' 1 1700000000000 None [])
        \<lparr>rd_buildConfig := (mk_config ''http://jenkins/job/ui-tests/1/'' ''ui-tests'' 1)
             \<lparr>bc_environment := Some ''constructor''\<rparr>\<rparr>]
     = Inl ''TypeError: acc[env].push is not a function''"
  by code_simp

end
